theory Spec2Isabelle
  imports Complex_Main
begin

section \<open>The Rome world: fixed-step physics, movement and camera loop\<close>

text \<open>
  A shallow embedding of the control logic of \<^verbatim>\<open>src/rome.js\<close>: the keyboard handlers,
  the ground probe \<^verbatim>\<open>isPlayerGrounded\<close>, the debug toggle \<^verbatim>\<open>toggleDebugMode\<close>,
  \<^verbatim>\<open>updateMovement\<close>, \<^verbatim>\<open>adjustVelocityForWalls\<close> and the frame callback \<^verbatim>\<open>animate\<close>.

  JavaScript numbers are modelled as real numbers, first with the exact arithmetic; the
  accumulator of \<^verbatim>\<open>animate\<close> and the wall slide, whose properties turn on the rounding,
  are modelled a second time in the arithmetic of IEEE doubles. The closure variables of
  \<^verbatim>\<open>init\<close> become the fields of one state record that every handler takes and returns.
\<close>

subsection \<open>Vectors (THREE.Vector3 and the plain x/y/z objects of Rapier)\<close>

datatype vec3 = Vector3 (xc: real) (yc: real) (zc: real)

text \<open>
  The methods of THREE.Vector3 that the program calls. three.js is a library outside the
  repository; the definitions follow its documented arithmetic. \<^verbatim>\<open>normalize\<close> is
  \<^verbatim>\<open>divideScalar(length() || 1)\<close> and \<^verbatim>\<open>divideScalar(s)\<close> is \<^verbatim>\<open>multiplyScalar(1 / s)\<close>, so
  the zero vector is left as it is.
\<close>

definition lengthSq :: "vec3 \<Rightarrow> real" where
  "lengthSq v = xc v * xc v + yc v * yc v + zc v * zc v"

definition length_v :: "vec3 \<Rightarrow> real" where
  "length_v v = sqrt (lengthSq v)"

definition multiplyScalar :: "vec3 \<Rightarrow> real \<Rightarrow> vec3" where
  "multiplyScalar v s = Vector3 (xc v * s) (yc v * s) (zc v * s)"

definition divideScalar :: "vec3 \<Rightarrow> real \<Rightarrow> vec3" where
  "divideScalar v s = multiplyScalar v (1 / s)"

definition normalize_v :: "vec3 \<Rightarrow> vec3" where
  "normalize_v v = divideScalar v (if length_v v = 0 then 1 else length_v v)"

definition dot :: "vec3 \<Rightarrow> vec3 \<Rightarrow> real" where
  "dot a b = xc a * xc b + yc a * yc b + zc a * zc b"

definition add_v :: "vec3 \<Rightarrow> vec3 \<Rightarrow> vec3" where
  "add_v a b = Vector3 (xc a + xc b) (yc a + yc b) (zc a + zc b)"

definition sub_v :: "vec3 \<Rightarrow> vec3 \<Rightarrow> vec3" where
  "sub_v a b = Vector3 (xc a - xc b) (yc a - yc b) (zc a - zc b)"

definition addScaledVector :: "vec3 \<Rightarrow> vec3 \<Rightarrow> real \<Rightarrow> vec3" where
  "addScaledVector v n s = Vector3 (xc v + xc n * s) (yc v + yc n * s) (zc v + zc n * s)"

definition crossVectors :: "vec3 \<Rightarrow> vec3 \<Rightarrow> vec3" where
  "crossVectors a b =
     Vector3 (yc a * zc b - zc a * yc b) (zc a * xc b - xc a * zc b) (xc a * yc b - yc a * xc b)"

subsection \<open>Configuration (rome.js, lines 29-53 and 116-117)\<close>

definition GLOBAL_SCALE :: real where
  "GLOBAL_SCALE = 0.7"

definition MOVE_SPEED :: real where
  "MOVE_SPEED = 3 * GLOBAL_SCALE"

definition PLAYER_RADIUS :: real where
  "PLAYER_RADIUS = 0.1 * GLOBAL_SCALE"

definition PLAYER_HALF_HEIGHT :: real where
  "PLAYER_HALF_HEIGHT = 0.5 * GLOBAL_SCALE"

definition PLAYER_EYE_HEIGHT :: real where
  "PLAYER_EYE_HEIGHT = 1.0 * GLOBAL_SCALE"

definition PLAYER_JUMP_SPEED :: real where
  "PLAYER_JUMP_SPEED = 8.0 * GLOBAL_SCALE"

definition FIXED_TIME_STEP :: real where
  "FIXED_TIME_STEP = 1 / 60"

definition MAX_SUBSTEPS :: int where
  "MAX_SUBSTEPS = 5"

subsection \<open>The physics world, the scene and the program state\<close>

text \<open>
  The player's rigid body lives in the Rapier world; the program reads its translation and
  its linear velocity and writes the velocity. The rest of the world (colliders, solver
  state) is the field \<open>engineState\<close>, of any type \<open>'w\<close>. \<^verbatim>\<open>playerBody\<close> is \<^verbatim>\<open>null\<close> until line 208
  assigns it, and every handler tests it, so it is an option.
\<close>

record body =
  translation :: vec3
  linvel :: vec3

record 'w physics =
  playerBody :: "body option"
  engineState :: 'w

record ray =
  origin :: vec3
  dir :: vec3

text \<open>The result of a ray cast: the distance \<^verbatim>\<open>toi\<close> and the surface normal, which
  the program tests before it reads it (\<^verbatim>\<open>hit.normal ? ... : ...\<close>, \<^verbatim>\<open>hit?.normal\<close>).\<close>

record hit =
  toi :: real
  normal :: "vec3 option"

datatype quaternion = Quaternion real real real real

record camera =
  position :: vec3
  orientation :: quaternion
  up :: vec3

text \<open>
  The operations of the two engines that the program calls and does not define: Rapier's
  \<^verbatim>\<open>world.castRayAndGetNormal(ray, maxToi, solid)\<close> (\<open>None\<close> is \<^verbatim>\<open>null\<close>, no hit) and
  \<^verbatim>\<open>world.step()\<close>, and three.js's \<^verbatim>\<open>camera.getWorldDirection\<close>. They are parameters
  of the model: every theorem holds for every behaviour of the engines.
\<close>

record 'w engine =
  castRayAndGetNormal :: "'w physics \<Rightarrow> ray \<Rightarrow> real \<Rightarrow> bool \<Rightarrow> hit option"
  step :: "'w physics \<Rightarrow> 'w physics"
  getWorldDirection :: "camera \<Rightarrow> vec3"

text \<open>
  The objects that the program attaches to the scene. \<^verbatim>\<open>scene.add(o)\<close> of three.js
  detaches \<open>o\<close> from its parent and appends it to the children; \<^verbatim>\<open>scene.remove(o)\<close>
  splices it out of the children when it is there. Of a mesh only the \<^verbatim>\<open>visible\<close> flag
  is modelled (geometry, material and transform play no part in the control logic).
\<close>

datatype object3d = HemiLight | DirLight | PointLight | SplatMeshObj | EnvironmentObj

record mesh =
  visible :: bool

definition scene_remove :: "object3d \<Rightarrow> object3d list \<Rightarrow> object3d list" where
  "scene_remove ob children = remove1 ob children"

definition scene_add :: "object3d \<Rightarrow> object3d list \<Rightarrow> object3d list" where
  "scene_add ob children = scene_remove ob children @ [ob]"

text \<open>
  \<^verbatim>\<open>keyState\<close> is a JavaScript object: a key that was never pressed reads as
  \<^verbatim>\<open>undefined\<close>, which is falsy.
\<close>

record 'w state =
  world :: "'w physics"
  camera :: camera
  isLocked :: bool
  scene :: "object3d list"
  splatMesh :: "mesh option"
  environment :: "mesh option"
  splatsLoaded :: bool
  debugMode :: bool
  keyState :: "string \<rightharpoonup> bool"
  previousTime :: real
  physicsAccumulator :: real

definition pressed :: "'w state \<Rightarrow> string \<Rightarrow> bool" where
  "pressed s code = (keyState s code = Some True)"

subsection \<open>The ground probe (lines 331-346)\<close>

definition isPlayerGrounded :: "'w engine \<Rightarrow> 'w state \<Rightarrow> bool" where
  "isPlayerGrounded eng s =
     (case playerBody (world s) of
        None \<Rightarrow> False
      | Some b \<Rightarrow>
          (let p = translation b;
               r = \<lparr>origin = Vector3 (xc p) (yc p) (zc p), dir = Vector3 0 (-1) 0\<rparr>;
               footOffset = PLAYER_HALF_HEIGHT + PLAYER_RADIUS
           in case castRayAndGetNormal eng (world s) r (footOffset + 0.6) True of
                None \<Rightarrow> False
              | Some h \<Rightarrow>
                  (let normalY = (case normal h of Some n \<Rightarrow> yc n | None \<Rightarrow> 1.0);
                       nearGround = (toi h \<le> footOffset + 0.12 \<and> normalY > 0.3);
                       vy = yc (linvel b)
                   in nearGround \<and> vy \<le> 0.6)))"

subsection \<open>The debug toggle (lines 348-367) and the load callback (lines 261-268)\<close>

definition toggleDebugMode :: "'w state \<Rightarrow> 'w state" where
  "toggleDebugMode s =
     (if splatMesh s = None \<or> \<not> splatsLoaded s then s
      else if debugMode s then
        (let s1 = s\<lparr>scene := scene_remove SplatMeshObj (scene s)\<rparr>;
             s2 = (case environment s1 of
                     None \<Rightarrow> s1\<lparr>environment := Some \<lparr>visible = True\<rparr>,
                                scene := scene_add EnvironmentObj (scene s1)\<rparr>
                   | Some e \<Rightarrow> s1)
         in s2\<lparr>environment := map_option (\<lambda>e. e\<lparr>visible := True\<rparr>) (environment s2)\<rparr>)
      else
        (let s1 = s\<lparr>environment := map_option (\<lambda>e. e\<lparr>visible := False\<rparr>) (environment s)\<rparr>
         in s1\<lparr>scene := scene_add SplatMeshObj (scene s1)\<rparr>))"

definition onLoad :: "'w state \<Rightarrow> 'w state" where
  "onLoad s =
     (let s1 = s\<lparr>splatsLoaded := True\<rparr>;
          s2 = s1\<lparr>environment := map_option (\<lambda>e. e\<lparr>visible := False\<rparr>) (environment s1)\<rparr>
      in s2\<lparr>scene := scene_add SplatMeshObj (scene s2)\<rparr>)"

subsection \<open>The keyboard handlers (lines 290-329)\<close>

text \<open>The \<^verbatim>\<open>KeyP\<close> branch only prints the player's pose to the console; it writes no
  variable and is left out.\<close>

definition keydown :: "'w engine \<Rightarrow> string \<Rightarrow> 'w state \<Rightarrow> 'w state" where
  "keydown eng code s =
     (let s1 = s\<lparr>keyState := (keyState s)(code \<mapsto> True)\<rparr>;
          s2 = (if code = ''KeyM'' then toggleDebugMode (s1\<lparr>debugMode := \<not> debugMode s1\<rparr>)
                else s1)
      in if code = ''Space'' then
           (case playerBody (world s2) of
              None \<Rightarrow> s2
            | Some b \<Rightarrow>
                if isPlayerGrounded eng s2 then
                  (let v = linvel b
                   in s2\<lparr>world := (world s2)\<lparr>playerBody :=
                          Some (b\<lparr>linvel := Vector3 (xc v) PLAYER_JUMP_SPEED (zc v)\<rparr>)\<rparr>\<rparr>)
                else s2)
         else s2)"

definition keyup :: "string \<Rightarrow> 'w state \<Rightarrow> 'w state" where
  "keyup code s = s\<lparr>keyState := (keyState s)(code \<mapsto> False)\<rparr>"

subsection \<open>Movement (lines 370-433)\<close>

text \<open>
  \<^verbatim>\<open>adjustVelocityForWalls\<close> reads \<^verbatim>\<open>playerBody.translation()\<close> without a test: its one
  call site, in \<^verbatim>\<open>updateMovement\<close>, comes after the test \<^verbatim>\<open>!playerBody\<close>. The model
  passes the body that the caller found.
\<close>

definition adjustVelocityForWalls :: "'w engine \<Rightarrow> 'w physics \<Rightarrow> body \<Rightarrow> vec3 \<Rightarrow> vec3" where
  "adjustVelocityForWalls eng w b desiredVel =
     (let v = desiredVel in
      if lengthSq v = 0 then v
      else
        let p = translation b;
            horiz = Vector3 (xc v) 0 (zc v);
            len = length_v horiz
        in if len = 0 then v
           else
             let horiz' = normalize_v horiz;
                 r = \<lparr>origin = Vector3 (xc p) (yc p) (zc p),
                      dir = Vector3 (xc horiz') 0 (zc horiz')\<rparr>;
                 lookahead = PLAYER_RADIUS + 0.1
             in case castRayAndGetNormal eng w r lookahead True of
                  None \<Rightarrow> v
                | Some h \<Rightarrow>
                    (case normal h of
                       None \<Rightarrow> v
                     | Some nrm \<Rightarrow>
                         (let n = Vector3 (xc nrm) 0 (zc nrm)
                          in if lengthSq n > 0.0001 then
                               (let n' = normalize_v n;
                                    vn = dot v n'
                                in if vn > 0 then addScaledVector v n' (- vn) else v)
                             else v)))"

definition updateMovement :: "'w engine \<Rightarrow> real \<Rightarrow> 'w state \<Rightarrow> 'w state" where
  "updateMovement eng deltaTime s =
     (case playerBody (world s) of
        None \<Rightarrow> s
      | Some b \<Rightarrow>
          if \<not> isLocked s then s
          else
            let fwd = getWorldDirection eng (camera s);
                forward = normalize_v (Vector3 (xc fwd) 0 (zc fwd));
                right = normalize_v (crossVectors forward (up (camera s)));
                m0 = Vector3 0 0 0;
                m1 = (if pressed s ''KeyW'' then add_v m0 forward else m0);
                m2 = (if pressed s ''KeyS'' then sub_v m1 forward else m1);
                m3 = (if pressed s ''KeyD'' then add_v m2 right else m2);
                moveDir = (if pressed s ''KeyA'' then sub_v m3 right else m3);
                adjusted =
                  (if lengthSq moveDir > 0 then
                     adjustVelocityForWalls eng (world s) b
                       (multiplyScalar (normalize_v moveDir) MOVE_SPEED)
                   else Vector3 0 0 0);
                targetX = xc adjusted;
                targetZ = zc adjusted;
                current = linvel b;
                y0 = yc current;
                y1 = (if pressed s ''KeyR'' then y0 + MOVE_SPEED else y0);
                targetY = (if pressed s ''KeyF'' then y1 - MOVE_SPEED else y1)
            in s\<lparr>world := (world s)\<lparr>playerBody :=
                   Some (b\<lparr>linvel := Vector3 targetX targetY targetZ\<rparr>)\<rparr>\<rparr>)"

subsection \<open>The frame callback (lines 437-471)\<close>

text \<open>The loop \<^verbatim>\<open>for (let i = 0; i < steps; i++) { world.step(); physicsAccumulator -=
  FIXED_TIME_STEP; }\<close> on the pair of the world and the accumulator.\<close>

function stepLoop ::
  "('w physics \<Rightarrow> 'w physics) \<Rightarrow> int \<Rightarrow> int \<Rightarrow> 'w physics \<times> real \<Rightarrow> 'w physics \<times> real" where
  "stepLoop stp i steps (w, acc) =
     (if i < steps then stepLoop stp (i + 1) steps (stp w, acc - FIXED_TIME_STEP)
      else (w, acc))"
  by pat_completeness auto
termination
  by (relation "measure (\<lambda>(stp, i, steps, wa). nat (steps - i))") auto

declare stepLoop.simps [simp del]

definition frameTimeOf :: "real \<Rightarrow> 'w state \<Rightarrow> real" where
  "frameTimeOf currentTime s = min ((currentTime - previousTime s) / 1000) 0.1"

definition stepPhysics :: "'w engine \<Rightarrow> real \<Rightarrow> 'w state \<Rightarrow> 'w state" where
  "stepPhysics eng frameTime s =
     (let acc = physicsAccumulator s + frameTime;
          steps = min \<lfloor>acc / FIXED_TIME_STEP\<rfloor> MAX_SUBSTEPS;
          (w', acc') = stepLoop (step eng) 0 steps (world s, acc)
      in s\<lparr>world := w', physicsAccumulator := acc'\<rparr>)"

definition syncCamera :: "'w state \<Rightarrow> 'w state" where
  "syncCamera s =
     (case playerBody (world s) of
        None \<Rightarrow> s
      | Some b \<Rightarrow>
          (let p = translation b;
               feetY = yc p - (PLAYER_HALF_HEIGHT + PLAYER_RADIUS)
           in s\<lparr>camera := (camera s)\<lparr>position :=
                  Vector3 (xc p) (feetY + PLAYER_EYE_HEIGHT) (zc p)\<rparr>\<rparr>))"

text \<open>One call of \<^verbatim>\<open>animate(currentTime)\<close>. The two render calls at its end write none
  of the variables of the model.\<close>

definition animate :: "'w engine \<Rightarrow> real \<Rightarrow> 'w state \<Rightarrow> 'w state" where
  "animate eng currentTime s =
     (let frameTime = frameTimeOf currentTime s;
          s1 = s\<lparr>previousTime := currentTime\<rparr>;
          s2 = updateMovement eng frameTime s1;
          s3 = stepPhysics eng frameTime s2
      in syncCamera s3)"

text \<open>A run of frames: \<^verbatim>\<open>requestAnimationFrame\<close> calls \<^verbatim>\<open>animate\<close> again with the
  next time stamp.\<close>

fun frames :: "'w engine \<Rightarrow> real list \<Rightarrow> 'w state \<Rightarrow> 'w state" where
  "frames eng [] s = s"
| "frames eng (t # ts) s = frames eng ts (animate eng t s)"

text \<open>The elapsed times that a run of frames measures, in seconds, before the clamp.\<close>

fun elapsedTimes :: "real \<Rightarrow> real list \<Rightarrow> real list" where
  "elapsedTimes prev [] = []"
| "elapsedTimes prev (t # ts) = (t - prev) / 1000 # elapsedTimes t ts"

subsection \<open>A concrete world for the examples\<close>

text \<open>
  An engine to run the program on: the only collider is the top face of the ground box of
  lines 278-283 (centre at height -1, half-height 0.1, so the face is at height -0.9). A ray
  that points down hits it when it is within reach, with the normal pointing up; any other
  ray hits nothing. A step of the world leaves the body where it is and counts the step in
  \<open>engineState\<close>. The camera looks along the negative z axis.
\<close>

definition groundEngine :: "nat engine" where
  "groundEngine =
     \<lparr>castRayAndGetNormal = (\<lambda>w r maxToi solid.
          if yc (dir r) < 0 \<and> -0.9 \<le> yc (origin r) \<and> yc (origin r) + 0.9 \<le> maxToi
          then Some \<lparr>toi = yc (origin r) + 0.9, normal = Some (Vector3 0 1 0)\<rparr>
          else None),
      step = (\<lambda>w. w\<lparr>engineState := Suc (engineState w)\<rparr>),
      getWorldDirection = (\<lambda>c. Vector3 0 0 (-1))\<rparr>"

text \<open>The state that \<^verbatim>\<open>init\<close> builds before the first event, with the body at the
  translation \<open>p\<close> and the clock at \<open>t0\<close> (the source spawns the body at height 1.2).
  The camera is turned by half a turn about the vertical axis (\<^verbatim>\<open>camera.rotation.y =
  Math.PI\<close>), the quaternion (x, y, z, w) = (0, 1, 0, 0).\<close>

definition initialState :: "vec3 \<Rightarrow> real \<Rightarrow> nat state" where
  "initialState p t0 =
     \<lparr>world = \<lparr>playerBody = Some \<lparr>translation = p, linvel = Vector3 0 0 0\<rparr>, engineState = 0\<rparr>,
      camera = \<lparr>position = Vector3 0 0 0, orientation = Quaternion 0 1 0 0,
                up = Vector3 0 1 0\<rparr>,
      isLocked = False,
      scene = [HemiLight, DirLight, PointLight],
      splatMesh = Some \<lparr>visible = True\<rparr>,
      environment = None,
      splatsLoaded = False,
      debugMode = False,
      keyState = Map.empty,
      previousTime = t0,
      physicsAccumulator = 0\<rparr>"

text \<open>The same world with a wall all around: every ray hits, at distance 0.1, a surface
  whose normal is (1, 0.5, 0).\<close>

definition wallEngine :: "nat engine" where
  "wallEngine =
     groundEngine\<lparr>castRayAndGetNormal :=
       (\<lambda>w r maxToi solid. Some \<lparr>toi = 0.1, normal = Some (Vector3 1 0.5 0)\<rparr>)\<rparr>"

text \<open>The body standing on the ground face: its centre is half-height + radius above it.\<close>

definition standing :: vec3 where
  "standing = Vector3 0 (-0.48) 0"

subsection \<open>Events\<close>

text \<open>The callbacks that the browser runs, one at a time: a key goes down or up, a frame is
  due at a time stamp, the splat asset has loaded.\<close>

datatype event = KeyDown string | KeyUp string | Frame real | Loaded

fun handle :: "'w engine \<Rightarrow> event \<Rightarrow> 'w state \<Rightarrow> 'w state" where
  "handle eng (KeyDown code) s = keydown eng code s"
| "handle eng (KeyUp code) s = keyup code s"
| "handle eng (Frame t) s = animate eng t s"
| "handle eng Loaded s = onLoad s"

fun run :: "'w engine \<Rightarrow> event list \<Rightarrow> 'w state \<Rightarrow> 'w state" where
  "run eng [] s = s"
| "run eng (e # es) s = run eng es (handle eng e s)"

subsection \<open>Notions that the properties use\<close>

text \<open>The number of times that the body of the loop of \<^verbatim>\<open>animate\<close> runs when the
  accumulator holds \<open>acc\<close> before the loop: the loop counts from 0 up to
  \<^verbatim>\<open>steps\<close>, and not at all when \<^verbatim>\<open>steps\<close> is negative.\<close>

definition ticksOf :: "real \<Rightarrow> nat" where
  "ticksOf acc = nat (min \<lfloor>acc / FIXED_TIME_STEP\<rfloor> MAX_SUBSTEPS)"

text \<open>An object is attached when it is among the children of the scene; a mesh is displayed
  when it is attached and its \<^verbatim>\<open>visible\<close> flag is set (three.js renders no other).\<close>

definition attached :: "'w state \<Rightarrow> object3d \<Rightarrow> bool" where
  "attached s ob = (ob \<in> set (scene s))"

definition displayedSplats :: "'w state \<Rightarrow> bool" where
  "displayedSplats s =
     (attached s SplatMeshObj \<and> (case splatMesh s of None \<Rightarrow> False | Some m \<Rightarrow> visible m))"

definition displayedWireframe :: "'w state \<Rightarrow> bool" where
  "displayedWireframe s =
     (attached s EnvironmentObj \<and> (case environment s of None \<Rightarrow> False | Some e \<Rightarrow> visible e))"

text \<open>
  What holds of the scene while the splats are loading: the wireframe does not exist yet.
  What holds from the load on: the splat mesh exists and its flag is set, the wireframe is
  attached once it exists, and one of the two is displayed and the other is not.
\<close>

definition loadingInv :: "'w state \<Rightarrow> bool" where
  "loadingInv s =
     (distinct (scene s) \<and> EnvironmentObj \<notin> set (scene s) \<and> environment s = None
      \<and> (case splatMesh s of None \<Rightarrow> False | Some m \<Rightarrow> visible m))"

definition loadedInv :: "'w state \<Rightarrow> bool" where
  "loadedInv s =
     (distinct (scene s)
      \<and> (case splatMesh s of None \<Rightarrow> False | Some m \<Rightarrow> visible m)
      \<and> (case environment s of None \<Rightarrow> True | Some e \<Rightarrow> EnvironmentObj \<in> set (scene s))
      \<and> displayedSplats s \<noteq> displayedWireframe s)"

definition sceneInv :: "'w state \<Rightarrow> bool" where
  "sceneInv s = (if splatsLoaded s then loadedInv s else loadingInv s)"

subsection \<open>The arithmetic of IEEE doubles\<close>

text \<open>
  JavaScript numbers are IEEE 754 doubles. Where a property turns on the rounding of the
  arithmetic, the lines concerned are modelled a second time, with the rounding of every
  operation written out. \<open>rnd64\<close> rounds a real number to the nearest double, ties to
  even: the unit in the last place of \<open>x\<close> is 2 to the power \<open>binade x - 52\<close>, and
  subnormal numbers share the least exponent. The finite doubles are covered; the overflow
  to infinity and NaN are not, and the functions below are run on numbers far from it.
\<close>

definition roundEven :: "real \<Rightarrow> int" where
  "roundEven y =
     (let f = \<lfloor>y\<rfloor>; d = y - of_int f
      in if d < 1 / 2 then f else if 1 / 2 < d then f + 1 else if even f then f else f + 1)"

definition binade :: "real \<Rightarrow> int" where
  "binade x = max (- 1022) \<lfloor>log 2 \<bar>x\<bar>\<rfloor>"

definition rnd64 :: "real \<Rightarrow> real" where
  "rnd64 x =
     (if x = 0 then 0
      else of_int (roundEven (x / 2 powr of_int (binade x - 52))) * 2 powr of_int (binade x - 52))"

text \<open>The error of one rounding is at most \<open>eps64\<close> times the number rounded, or, for a
  subnormal result, at most \<open>eta64\<close>: half the distance from 1 to the next double, and half
  the least positive double.\<close>

definition eps64 :: real where
  "eps64 = 1 / 2 ^ 53"

definition eta64 :: real where
  "eta64 = 1 / 2 ^ 1075"

text \<open>Lines 442-443 and 449-458 of \<^verbatim>\<open>animate\<close> in doubles, on the pair of
  \<^verbatim>\<open>previousTime\<close> and \<^verbatim>\<open>physicsAccumulator\<close>. The literals \<^verbatim>\<open>0.1\<close> and
  \<^verbatim>\<open>1 / 60\<close> are the doubles nearest to them.\<close>

definition FIXED_TIME_STEP64 :: real where
  "FIXED_TIME_STEP64 = rnd64 (1 / 60)"

definition frameTime64 :: "real \<Rightarrow> real \<Rightarrow> real" where
  "frameTime64 currentTime previous =
     min (rnd64 (rnd64 (currentTime - previous) / 1000)) (rnd64 0.1)"

function stepLoop64 :: "int \<Rightarrow> int \<Rightarrow> real \<Rightarrow> real" where
  "stepLoop64 i steps acc =
     (if i < steps then stepLoop64 (i + 1) steps (rnd64 (acc - FIXED_TIME_STEP64)) else acc)"
  by pat_completeness auto
termination
  by (relation "measure (\<lambda>(i, steps, acc). nat (steps - i))") auto

declare stepLoop64.simps [simp del]

definition accumulate64 :: "real \<Rightarrow> real \<times> real \<Rightarrow> real \<times> real" where
  "accumulate64 currentTime pa =
     (let frameTime = frameTime64 currentTime (fst pa);
          acc = rnd64 (snd pa + frameTime);
          steps = min \<lfloor>rnd64 (acc / FIXED_TIME_STEP64)\<rfloor> MAX_SUBSTEPS
      in (currentTime, stepLoop64 0 steps acc))"












section \<open>Properties\<close>

subsection \<open>Rounding to a double\<close>


lemma binade_eq:
  fixes k :: nat
  assumes "k \<le> 1074" and "2 ^ 52 \<le> \<bar>x\<bar> * 2 ^ k" and "\<bar>x\<bar> * 2 ^ k < 2 ^ 53"
  shows "binade x = 52 - int k"
proof -
  have pos: "0 < \<bar>x\<bar>" using assms(2) by (smt (verit) mult_not_zero zero_less_power abs_ge_zero mult_nonneg_nonneg)
  have p: "(2::real) powr of_int (52 - int k) = 2 ^ 52 / 2 ^ k"
    by (simp add: powr_diff powr_realpow)
  have q: "(2::real) powr of_int (52 - int k + 1) = 2 ^ 53 / 2 ^ k"
    by (simp add: powr_diff powr_realpow)
  have "2 powr of_int (52 - int k) \<le> \<bar>x\<bar>"
    unfolding p using assms(2) by (simp add: field_simps)
  moreover have "\<bar>x\<bar> < 2 powr of_int (52 - int k + 1)"
    unfolding q using assms(3) by (simp add: field_simps)
  ultimately have "\<lfloor>log 2 \<bar>x\<bar>\<rfloor> = 52 - int k"
    using pos floor_log_eq_powr_iff [of "\<bar>x\<bar>" 2 "52 - int k"] by simp
  then show ?thesis using assms(1) by (simp add: binade_def)
qed

lemma rnd64_scaled:
  fixes k :: nat and m :: int
  assumes "k \<le> 1074" and "2 ^ 52 \<le> \<bar>x\<bar> * 2 ^ k" and "\<bar>x\<bar> * 2 ^ k < 2 ^ 53"
    and "roundEven (x * 2 ^ k) = m"
  shows "rnd64 x = of_int m / 2 ^ k"
proof -
  have b: "binade x - 52 = - int k"
    using binade_eq [OF assms(1-3)] by simp
  have nz: "x \<noteq> 0" using assms(2) by auto
  have u: "(2::real) powr - real k = 1 / 2 ^ k"
    by (simp add: powr_minus powr_realpow field_simps)
  show ?thesis
    using nz assms(4) by (simp add: rnd64_def b u)
qed


lemma rnd64_zero [simp]: "rnd64 0 = 0"
  by (simp add: rnd64_def)

text \<open>The roundings of the two frames with the time stamps 5 and 50.\<close>

lemma acc_r1: "rnd64 (1 / 60) = 4803839602528529 / 288230376151711744"
  using rnd64_scaled [where x = "1 / 60" and k = 58 and m = "4803839602528529"]
  by (simp add: roundEven_def Let_def)

lemma acc_r2: "rnd64 (1 / 10) = 3602879701896397 / 36028797018963968"
  using rnd64_scaled [where x = "1 / 10" and k = 56 and m = "7205759403792794"]
  by (simp add: roundEven_def Let_def)

lemma acc_r3: "rnd64 (5) = 5"
  using rnd64_scaled [where x = "5" and k = 50 and m = "5629499534213120"]
  by (simp add: roundEven_def Let_def)

lemma acc_r4: "rnd64 (1 / 200) = 5764607523034235 / 1152921504606846976"
  using rnd64_scaled [where x = "1 / 200" and k = 60 and m = "5764607523034235"]
  by (simp add: roundEven_def Let_def)

lemma acc_r5: "rnd64 (5764607523034235 / 1152921504606846976) = 5764607523034235 / 1152921504606846976"
  using rnd64_scaled [where x = "5764607523034235 / 1152921504606846976" and k = 60 and m = "5764607523034235"]
  by (simp add: roundEven_def Let_def)

lemma acc_r6: "rnd64 (5764607523034235 / 19215358410114116) = 5404319552844595 / 18014398509481984"
  using rnd64_scaled [where x = "5764607523034235 / 19215358410114116" and k = 54 and m = "5404319552844595"]
  by (simp add: roundEven_def Let_def)

lemma acc_r7: "rnd64 (45) = 45"
  using rnd64_scaled [where x = "45" and k = 47 and m = "6333186975989760"]
  by (simp add: roundEven_def Let_def)

lemma acc_r8: "rnd64 (9 / 200) = 3242591731706757 / 72057594037927936"
  using rnd64_scaled [where x = "9 / 200" and k = 57 and m = "6485183463413514"]
  by (simp add: roundEven_def Let_def)

lemma acc_r9: "rnd64 (57646075230342347 / 1152921504606846976) = 7205759403792793 / 144115188075855872"
  using rnd64_scaled [where x = "57646075230342347 / 1152921504606846976" and k = 57 and m = "7205759403792793"]
  by (simp add: roundEven_def Let_def)

lemma acc_r10: "rnd64 (14411518807585586 / 4803839602528529) = 3"
  using rnd64_scaled [where x = "14411518807585586 / 4803839602528529" and k = 51 and m = "6755399441055744"]
  by (simp add: roundEven_def Let_def)

lemma acc_r11: "rnd64 (9607679205057057 / 288230376151711744) = 300239975158033 / 9007199254740992"
  using rnd64_scaled [where x = "9607679205057057 / 288230376151711744" and k = 57 and m = "4803839602528528"]
  by (simp add: roundEven_def Let_def)

lemma acc_r12: "rnd64 (4803839602528527 / 288230376151711744) = 4803839602528527 / 288230376151711744"
  using rnd64_scaled [where x = "4803839602528527 / 288230376151711744" and k = 58 and m = "4803839602528527"]
  by (simp add: roundEven_def Let_def)

lemma acc_r13: "rnd64 (- (1 / 144115188075855872)) = - (1 / 144115188075855872)"
  using rnd64_scaled [where x = "- (1 / 144115188075855872)" and k = 109 and m = "- 4503599627370496"]
  by (simp add: roundEven_def Let_def)

lemma frame_5: "accumulate64 5 (0, 0) = (5, 5764607523034235 / 1152921504606846976)"
  by (simp add: accumulate64_def frameTime64_def FIXED_TIME_STEP64_def MAX_SUBSTEPS_def Let_def
      stepLoop64.simps acc_r1 acc_r2 acc_r3 acc_r4 acc_r5 acc_r6)

lemma frame_50:
  "accumulate64 50 (5, 5764607523034235 / 1152921504606846976) = (50, - (1 / 144115188075855872))"
  by (simp add: accumulate64_def frameTime64_def FIXED_TIME_STEP64_def MAX_SUBSTEPS_def Let_def
      stepLoop64.simps acc_r1 acc_r2 acc_r7 acc_r8 acc_r9 acc_r10 acc_r11 acc_r12 acc_r13)



























subsection \<open>The error of a rounding\<close>

lemma roundEven_error: "\<bar>of_int (roundEven y) - y\<bar> \<le> 1 / 2"
proof -
  have "of_int \<lfloor>y\<rfloor> \<le> y" "y < of_int \<lfloor>y\<rfloor> + 1"
    by linarith+
  then show ?thesis
    by (auto simp: roundEven_def Let_def abs_le_iff) 
qed

lemma binade_normal:
  assumes "x \<noteq> 0" and "- 1022 \<le> \<lfloor>log 2 \<bar>x\<bar>\<rfloor>"
  shows "2 powr of_int (binade x) \<le> \<bar>x\<bar>"
proof -
  have "binade x = \<lfloor>log 2 \<bar>x\<bar>\<rfloor>"
    using assms(2) by (simp add: binade_def)
  moreover have "2 powr of_int \<lfloor>log 2 \<bar>x\<bar>\<rfloor> \<le> 2 powr log 2 \<bar>x\<bar>"
    by (intro powr_mono) simp_all
  moreover have "2 powr log 2 \<bar>x\<bar> = \<bar>x\<bar>"
    using assms(1) by simp
  ultimately show ?thesis by simp
qed

lemma rnd64_error:
  "\<bar>rnd64 x - x\<bar> \<le> eps64 * \<bar>x\<bar> + eta64"
proof (cases "x = 0")
  case True
  then show ?thesis by (simp add: eps64_def eta64_def)
next
  case False
  define ulp :: real where "ulp = 2 powr of_int (binade x - 52)"
  have pos: "0 < ulp" by (simp add: ulp_def)
  have r: "rnd64 x = of_int (roundEven (x / ulp)) * ulp"
    using False by (simp add: rnd64_def ulp_def)
  have "rnd64 x - x = (of_int (roundEven (x / ulp)) - x / ulp) * ulp"
    using pos by (simp add: r field_simps)
  then have "\<bar>rnd64 x - x\<bar> = \<bar>of_int (roundEven (x / ulp)) - x / ulp\<bar> * ulp"
    using pos by (simp add: abs_mult)
  also have "\<dots> \<le> 1 / 2 * ulp"
    using roundEven_error [of "x / ulp"] pos by (intro mult_right_mono) simp_all
  finally have e: "\<bar>rnd64 x - x\<bar> \<le> ulp / 2" by simp
  have u: "ulp = 2 powr of_int (binade x) / 2 ^ 52"
    by (simp add: ulp_def powr_diff)
  show ?thesis
  proof (cases "- 1022 \<le> \<lfloor>log 2 \<bar>x\<bar>\<rfloor>")
    case True
    from binade_normal [OF False True] have "ulp \<le> \<bar>x\<bar> / 2 ^ 52"
      unfolding u by (simp add: divide_right_mono)
    then have "ulp / 2 \<le> eps64 * \<bar>x\<bar>" by (simp add: eps64_def)
    moreover have "0 \<le> eta64" by (simp add: eta64_def)
    ultimately show ?thesis using e by linarith
  next
    case False
    then have "binade x = - 1022" by (simp add: binade_def)
    then have "ulp = 2 powr (- 1074)"
      unfolding ulp_def by simp
    also have "\<dots> = 2 * eta64"
      unfolding eta64_def by (simp add: powr_minus_divide)
    finally have "ulp / 2 = eta64" by simp
    moreover have "0 \<le> eps64 * \<bar>x\<bar>" by (simp add: eps64_def)
    ultimately show ?thesis using e by linarith
  qed
qed


lemma eta64_nonneg: "0 \<le> eta64"
  by (simp add: eta64_def)

lemma rnd64_nonneg: "0 \<le> x \<Longrightarrow> 0 \<le> rnd64 x"
proof -
  assume x: "0 \<le> x"
  have "0 \<le> x / 2 powr of_int (binade x - 52)"
    using x by simp
  then have "0 \<le> \<lfloor>x / 2 powr of_int (binade x - 52)\<rfloor>"
    by simp
  then have "0 \<le> roundEven (x / 2 powr of_int (binade x - 52))"
    by (simp add: roundEven_def Let_def)
  then show ?thesis
    by (simp add: rnd64_def)
qed

lemma rnd64_abs_error: "\<bar>rnd64 x - x\<bar> \<le> \<bar>x\<bar> / 9007199254740992 + eta64"
  using rnd64_error [of x] by (simp add: eps64_def)

lemma eta64_small: "eta64 \<le> 1 / 1208925819614629174706176"
  by (simp add: eta64_def)



lemma roundEven_ge: "of_int m \<le> y \<Longrightarrow> m \<le> roundEven y"
proof -
  assume "of_int m \<le> y"
  then have "m \<le> \<lfloor>y\<rfloor>"
    by (simp add: le_floor_iff)
  then show ?thesis
    by (simp add: roundEven_def Let_def)
qed

lemma roundEven_le: "y \<le> of_int m \<Longrightarrow> roundEven y \<le> m"
proof -
  assume a: "y \<le> of_int m"
  show ?thesis
  proof (cases "\<lfloor>y\<rfloor> = m")
    case True
    then have "of_int m \<le> y"
      using of_int_floor_le [of y] by simp
    with a have "y = of_int m"
      by simp
    then show ?thesis
      by (simp add: roundEven_def Let_def)
  next
    case False
    moreover have "\<lfloor>y\<rfloor> \<le> m"
      using a by (simp add: floor_le_iff)
    ultimately have "\<lfloor>y\<rfloor> + 1 \<le> m"
      by simp
    then show ?thesis
      by (simp add: roundEven_def Let_def)
  qed
qed

lemma rnd64_nonpos: "x \<le> 0 \<Longrightarrow> rnd64 x \<le> 0"
proof -
  assume x: "x \<le> 0"
  have "x / 2 powr of_int (binade x - 52) \<le> of_int 0"
    using x by (simp add: divide_nonpos_pos)
  then have "roundEven (x / 2 powr of_int (binade x - 52)) \<le> 0"
    by (rule roundEven_le)
  then show ?thesis
    by (simp add: rnd64_def mult_nonpos_nonneg)
qed

lemma rnd64_bounded:
  assumes b: "\<bar>x\<bar> \<le> 1 / 2 ^ 49"
  shows "\<bar>rnd64 x\<bar> \<le> 1 / 2 ^ 49"
proof (cases "x = 0")
  case True
  then show ?thesis by simp
next
  case False
  define c :: real where "c = 1 / 2 ^ 49"
  define j where "j = nat (3 - binade x)"
  define u :: real where "u = 2 powr of_int (binade x - 52)"
  have c: "c = 2 powr (- 49)"
    by (simp add: c_def powr_minus_divide)
  have "log 2 \<bar>x\<bar> \<le> log 2 c"
    using False b by (simp add: c_def)
  also have "\<dots> = - 49"
    by (simp add: c)
  finally have "\<lfloor>log 2 \<bar>x\<bar>\<rfloor> \<le> - 49"
    by (simp add: floor_le_iff)
  then have bb: "binade x \<le> - 49"
    by (simp add: binade_def)
  then have "of_int (binade x - 52) = - 49 - real j"
    by (simp add: j_def)
  then have "u = 2 powr (- 49 - real j)"
    by (simp add: u_def)
  also have "\<dots> = c / 2 ^ j"
    by (simp add: c powr_diff powr_realpow)
  finally have u: "u = c / 2 ^ j" .
  have cpos: "0 < c"
    by (simp add: c_def)
  have upos: "0 < u"
    by (simp add: u_def)
  have "x / u = x * 2 ^ j / c"
    using cpos by (simp add: u)
  moreover have "\<bar>x * 2 ^ j / c\<bar> \<le> 2 ^ j"
  proof -
    have xc: "\<bar>x\<bar> \<le> c"
      using b by (simp add: c_def)
    have "\<bar>x * 2 ^ j / c\<bar> = \<bar>x\<bar> * 2 ^ j / c"
      using cpos by (simp add: abs_mult)
    also have "\<dots> \<le> c * 2 ^ j / c"
      using xc cpos by (intro divide_right_mono mult_right_mono) simp_all
    also have "\<dots> = 2 ^ j"
      using cpos by simp
    finally show ?thesis .
  qed
  ultimately have y: "\<bar>x / u\<bar> \<le> 2 ^ j"
    by simp
  define y' where "y' = x / u"
  have "y' \<le> \<bar>y'\<bar>" "- \<bar>y'\<bar> \<le> y'"
    by linarith+
  with y have "x / u \<le> 2 ^ j" "- (2 ^ j) \<le> x / u"
    unfolding y'_def by linarith+
  then have "x / u \<le> of_int (2 ^ j)" "of_int (- (2 ^ j)) \<le> x / u"
    by simp_all
  then have "roundEven (x / u) \<le> 2 ^ j" "- (2 ^ j) \<le> roundEven (x / u)"
    by (simp_all only: roundEven_le roundEven_ge)
  then have "\<bar>roundEven (x / u)\<bar> \<le> 2 ^ j"
    by simp
  then have "\<bar>of_int (roundEven (x / u)) :: real\<bar> \<le> 2 ^ j"
    by (metis of_int_abs of_int_le_iff of_int_numeral of_int_power)
  then have "\<bar>of_int (roundEven (x / u)) * u\<bar> \<le> 2 ^ j * u"
    using upos by (simp add: abs_mult mult_right_mono)
  also have "\<dots> = c"
    by (simp add: u)
  finally show ?thesis
    using False by (simp add: rnd64_def u_def c_def)
qed

subsection \<open>The parts of a frame\<close>

lemma updateMovement_others:
  "camera (updateMovement eng dt s) = camera s"
  "physicsAccumulator (updateMovement eng dt s) = physicsAccumulator s"
  "previousTime (updateMovement eng dt s) = previousTime s"
  by (simp_all add: updateMovement_def Let_def split: option.splits)

lemma syncCamera_others:
  "world (syncCamera s) = world s"
  "physicsAccumulator (syncCamera s) = physicsAccumulator s"
  "previousTime (syncCamera s) = previousTime s"
  by (simp_all add: syncCamera_def Let_def split: option.splits)

lemma stepLoop_eq:
  "stepLoop stp i steps (w, acc) =
     ((stp ^^ nat (steps - i)) w, acc - real (nat (steps - i)) * FIXED_TIME_STEP)"
proof (induction stp i steps "(w, acc)" arbitrary: w acc rule: stepLoop.induct)
  case (1 stp i steps w acc)
  show ?case
  proof (cases "i < steps")
    case True
    then have n: "nat (steps - i) = Suc (nat (steps - (i + 1)))"
      by simp
    have "stepLoop stp i steps (w, acc) =
            stepLoop stp (i + 1) steps (stp w, acc - FIXED_TIME_STEP)"
      using True by (simp add: stepLoop.simps [of stp i])
    also have "\<dots> = ((stp ^^ nat (steps - (i + 1))) (stp w),
                     acc - FIXED_TIME_STEP - real (nat (steps - (i + 1))) * FIXED_TIME_STEP)"
      using True by (rule "1.hyps")
    also have "\<dots> = ((stp ^^ nat (steps - i)) w, acc - real (nat (steps - i)) * FIXED_TIME_STEP)"
      by (simp only: n funpow_Suc_right o_apply of_nat_Suc) (simp add: algebra_simps)
    finally show ?thesis .
  next
    case False
    then show ?thesis by (simp add: stepLoop.simps [of stp i])
  qed
qed
lemma stepPhysics_eq:
  "world (stepPhysics eng ft s) = (step eng ^^ ticksOf (physicsAccumulator s + ft)) (world s)"
  "physicsAccumulator (stepPhysics eng ft s) =
     physicsAccumulator s + ft - real (ticksOf (physicsAccumulator s + ft)) * FIXED_TIME_STEP"
  "previousTime (stepPhysics eng ft s) = previousTime s"
  "camera (stepPhysics eng ft s) = camera s"
  by (simp_all add: stepPhysics_def Let_def stepLoop_eq ticksOf_def)

lemma animate_eq:
  "world (animate eng t s) =
     (step eng ^^ ticksOf (physicsAccumulator s + frameTimeOf t s))
       (world (updateMovement eng (frameTimeOf t s) (s\<lparr>previousTime := t\<rparr>)))"
  "physicsAccumulator (animate eng t s) =
     physicsAccumulator s + frameTimeOf t s
       - real (ticksOf (physicsAccumulator s + frameTimeOf t s)) * FIXED_TIME_STEP"
  "previousTime (animate eng t s) = t"
  by (simp_all add: animate_def Let_def syncCamera_others stepPhysics_eq updateMovement_others)

lemma ticks_le: "0 \<le> a \<Longrightarrow> real (ticksOf a) * FIXED_TIME_STEP \<le> a"
proof -
  assume a: "0 \<le> a"
  have "0 \<le> \<lfloor>a * 60\<rfloor>" using a by simp
  then have "real (ticksOf a) \<le> of_int \<lfloor>a * 60\<rfloor>"
    by (simp add: ticksOf_def FIXED_TIME_STEP_def MAX_SUBSTEPS_def min_def)
  also have "\<dots> \<le> a * 60" by (rule of_int_floor_le)
  finally show ?thesis by (simp add: FIXED_TIME_STEP_def)
qed

lemma ticks_remainder:
  assumes "0 \<le> a" and "\<lfloor>a / FIXED_TIME_STEP\<rfloor> \<le> MAX_SUBSTEPS"
  shows "a - real (ticksOf a) * FIXED_TIME_STEP < FIXED_TIME_STEP"
proof -
  have f: "0 \<le> \<lfloor>a * 60\<rfloor>" using assms(1) by simp
  have "real (ticksOf a) = of_int \<lfloor>a * 60\<rfloor>"
    using assms(2) f by (simp add: ticksOf_def FIXED_TIME_STEP_def min_def)
  moreover have "a * 60 < of_int \<lfloor>a * 60\<rfloor> + 1"
    by linarith
  ultimately show ?thesis by (simp add: FIXED_TIME_STEP_def) linarith
qed

lemma frames_acc_nonneg:
  "0 \<le> physicsAccumulator s \<Longrightarrow> \<forall>d \<in> set (elapsedTimes (previousTime s) ts). 0 \<le> d \<Longrightarrow>
   0 \<le> physicsAccumulator (frames eng ts s)"
proof (induction ts arbitrary: s)
  case Nil
  then show ?case by simp
next
  case (Cons t ts)
  have ft: "0 \<le> frameTimeOf t s"
    using Cons.prems(2) by (simp add: frameTimeOf_def)
  have "0 \<le> physicsAccumulator (animate eng t s)"
    using ticks_le [of "physicsAccumulator s + frameTimeOf t s"] ft Cons.prems(1)
    by (simp add: animate_eq)
  moreover have "\<forall>d \<in> set (elapsedTimes (previousTime (animate eng t s)) ts). 0 \<le> d"
    using Cons.prems(2) by (simp add: animate_eq)
  ultimately show ?case
    using Cons.IH [of "animate eng t s"] by simp
qed

lemma frames_acc_below_step:
  "0 \<le> physicsAccumulator s \<Longrightarrow> physicsAccumulator s < FIXED_TIME_STEP \<Longrightarrow>
   \<forall>d \<in> set (elapsedTimes (previousTime s) ts). 0 \<le> d \<and> d \<le> of_int MAX_SUBSTEPS * FIXED_TIME_STEP \<Longrightarrow>
   0 \<le> physicsAccumulator (frames eng ts s) \<and> physicsAccumulator (frames eng ts s) < FIXED_TIME_STEP"
proof (induction ts arbitrary: s)
  case Nil
  then show ?case by simp
next
  case (Cons t ts)
  define a where "a = physicsAccumulator s + frameTimeOf t s"
  have d: "0 \<le> (t - previousTime s) / 1000" "(t - previousTime s) / 1000 \<le> of_int MAX_SUBSTEPS * FIXED_TIME_STEP"
    using Cons.prems(3) by simp_all
  have ft: "0 \<le> frameTimeOf t s" "frameTimeOf t s \<le> 5 / 60"
    using d by (simp_all add: frameTimeOf_def MAX_SUBSTEPS_def FIXED_TIME_STEP_def)
  have a0: "0 \<le> a" using ft Cons.prems(1) by (simp add: a_def)
  have "a * 60 < 6" using ft Cons.prems(2) by (simp add: a_def FIXED_TIME_STEP_def)
  then have "\<lfloor>a * 60\<rfloor> < 6" by (simp add: floor_less_iff)
  then have fl: "\<lfloor>a / FIXED_TIME_STEP\<rfloor> \<le> MAX_SUBSTEPS"
    by (simp add: FIXED_TIME_STEP_def MAX_SUBSTEPS_def)
  have 1: "0 \<le> physicsAccumulator (animate eng t s)"
    using ticks_le [OF a0] by (simp add: animate_eq a_def)
  have 2: "physicsAccumulator (animate eng t s) < FIXED_TIME_STEP"
    using ticks_remainder [OF a0 fl] by (simp add: animate_eq a_def)
  have 3: "\<forall>d \<in> set (elapsedTimes (previousTime (animate eng t s)) ts).
             0 \<le> d \<and> d \<le> of_int MAX_SUBSTEPS * FIXED_TIME_STEP"
    using Cons.prems(3) by (simp add: animate_eq)
  show ?case
    using Cons.IH [OF 1 2 3] by simp
qed

lemma init_fields:
  "physicsAccumulator (initialState p t0) = 0"
  "previousTime (initialState p t0) = t0"
  by (simp_all add: initialState_def)


lemma engineState_steps:
  "engineState ((step groundEngine ^^ n) w) = engineState w + n"
  by (induction n) (simp_all add: groundEngine_def)

lemma syncCamera_camera:
  "playerBody (world s) = Some b \<Longrightarrow>
   camera (syncCamera s) = (camera s)\<lparr>position :=
     Vector3 (xc (translation b))
             (yc (translation b) - (PLAYER_HALF_HEIGHT + PLAYER_RADIUS) + PLAYER_EYE_HEIGHT)
             (zc (translation b))\<rparr>"
  by (simp add: syncCamera_def Let_def)

lemma keydown_Space:
  "keydown eng ''Space'' s =
     (let s1 = s\<lparr>keyState := (keyState s)(''Space'' \<mapsto> True)\<rparr>
      in case playerBody (world s) of
           None \<Rightarrow> s1
         | Some b \<Rightarrow>
             if isPlayerGrounded eng s then
               s1\<lparr>world := (world s)\<lparr>playerBody :=
                     Some (b\<lparr>linvel := Vector3 (xc (linvel b)) PLAYER_JUMP_SPEED (zc (linvel b))\<rparr>)\<rparr>\<rparr>
             else s1)"
  by (simp add: keydown_def isPlayerGrounded_def Let_def split: option.splits)





subsection \<open>The accumulator in doubles\<close>

text \<open>The loop of \<^verbatim>\<open>animate\<close> in doubles is the subtraction of the step, rounded,
  iterated; after at most five rounds the result is within five roundings of the exact
  difference.\<close>

lemma FIXED_TIME_STEP64_bounds: "1 / 64 \<le> FIXED_TIME_STEP64" "FIXED_TIME_STEP64 \<le> 1 / 32"
  by (simp_all add: FIXED_TIME_STEP64_def acc_r1)

lemma stepLoop64_iterate:
  assumes f: "\<And>a. f a = rnd64 (a - FIXED_TIME_STEP64)"
  shows "stepLoop64 i n a = (f ^^ nat (n - i)) a"
proof (induction i n a rule: stepLoop64.induct)
  case (1 i steps acc)
  show ?case
  proof (cases "i < steps")
    case True
    then have "nat (steps - i) = Suc (nat (steps - (i + 1)))"
      by simp
    moreover have "stepLoop64 i steps acc = stepLoop64 (i + 1) steps (f acc)"
      using True by (subst stepLoop64.simps) (simp add: f)
    ultimately show ?thesis
      using 1 [OF True] by (simp add: f [symmetric] funpow_swap1)
  next
    case False
    then show ?thesis
      by (subst stepLoop64.simps) simp
  qed
qed

lemma stepLoop64_funpow:
  "stepLoop64 i n a = ((\<lambda>a. rnd64 (a - FIXED_TIME_STEP64)) ^^ nat (n - i)) a"
  by (rule stepLoop64_iterate) simp

lemma funpow_sub_error:
  fixes A :: real
  assumes A: "0 \<le> A" and k: "k \<le> 5"
  shows "\<bar>((\<lambda>a. rnd64 (a - FIXED_TIME_STEP64)) ^^ k) A - (A - real k * FIXED_TIME_STEP64)\<bar>
           \<le> real k * (2 * A / 9007199254740992 + 1 / 9007199254740992 + eta64)"
  using k
proof (induction k)
  case 0
  show ?case by simp
next
  case (Suc k)
  define F where "F = FIXED_TIME_STEP64"
  define e where "e = 2 * A / 9007199254740992 + 1 / 9007199254740992 + eta64"
  define a where "a = ((\<lambda>a. rnd64 (a - F)) ^^ k) A"
  define kF where "kF = real k * F"
  define ke where "ke = real k * e"
  define t where "t = a - F"
  have Fb: "1 / 64 \<le> F" "F \<le> 1 / 32"
    unfolding F_def by (rule FIXED_TIME_STEP64_bounds)+
  have e0: "0 \<le> e"
    using A eta64_nonneg by (simp add: e_def)
  have k4: "real k \<le> 4" "0 \<le> real k"
    using Suc.prems by simp_all
  have kF: "0 \<le> kF" "kF \<le> 4 * F"
    unfolding kF_def using k4 Fb by (simp_all add: mult_right_mono)
  have ke: "0 \<le> ke" "ke \<le> 4 * e"
    unfolding ke_def using k4 e0 by (simp_all add: mult_right_mono)
  have ih: "\<bar>a - (A - kF)\<bar> \<le> ke"
    using Suc by (simp add: a_def kF_def ke_def F_def e_def)
  have tb: "\<bar>t\<bar> \<le> 2 * A + 1"
    unfolding t_def using ih kF ke Fb A eta64_small e_def by linarith
  have "\<bar>rnd64 t - t\<bar> \<le> \<bar>t\<bar> / 9007199254740992 + eta64"
    by (rule rnd64_abs_error)
  then have r: "\<bar>rnd64 t - t\<bar> \<le> e"
    using tb e_def by linarith
  have "\<bar>rnd64 t - (A - (kF + F))\<bar> \<le> ke + e"
    using r ih unfolding t_def by linarith
  moreover have "real (Suc k) * F = kF + F" "real (Suc k) * e = ke + e"
    by (simp_all add: kF_def ke_def algebra_simps)
  ultimately show ?case
    by (simp add: t_def a_def F_def e_def)
qed

lemma frame64_bounds:
  assumes A: "0 \<le> A"
  shows "- (1 / 2 ^ 49) \<le> stepLoop64 0 (min \<lfloor>rnd64 (A / FIXED_TIME_STEP64)\<rfloor> MAX_SUBSTEPS) A
    \<and> (\<lfloor>rnd64 (A / FIXED_TIME_STEP64)\<rfloor> \<le> MAX_SUBSTEPS \<longrightarrow>
          stepLoop64 0 (min \<lfloor>rnd64 (A / FIXED_TIME_STEP64)\<rfloor> MAX_SUBSTEPS) A
            \<le> FIXED_TIME_STEP64 + 1 / 2 ^ 49)"
proof -
  define F where "F = FIXED_TIME_STEP64"
  define r where "r = A / F"
  define q where "q = rnd64 r"
  define n where "n = min \<lfloor>q\<rfloor> 5"
  define k where "k = nat n"
  define rn where "rn = real k"
  define nF where "nF = rn * F"
  define e where "e = 2 * A / 9007199254740992 + 1 / 9007199254740992 + eta64"
  define ke where "ke = rn * e"
  define after where "after = stepLoop64 0 n A"
  have Fb: "1 / 64 \<le> F" "F \<le> 1 / 32"
    unfolding F_def by (rule FIXED_TIME_STEP64_bounds)+
  have r0: "0 \<le> r"
    using A Fb by (simp add: r_def)
  have rF: "r * F = A"
    using Fb by (simp add: r_def)
  have q0: "0 \<le> q"
    unfolding q_def using r0 by (rule rnd64_nonneg)
  have n0: "0 \<le> n" and n5: "n \<le> 5"
    using q0 by (simp_all add: n_def)
  have k5: "k \<le> 5"
    using n5 by (simp add: k_def)
  have rn_n: "rn = of_int n"
    using n0 by (simp add: rn_def k_def)
  have "n \<le> \<lfloor>q\<rfloor>"
    by (simp add: n_def)
  then have rnq: "rn \<le> q"
    by (simp add: rn_n le_floor_iff)
  have rnb: "0 \<le> rn" "rn \<le> 5"
    using k5 by (simp_all add: rn_def)
  have e0: "0 \<le> e"
    using A eta64_nonneg by (simp add: e_def)
  have qe: "\<bar>q - r\<bar> \<le> \<bar>r\<bar> / 9007199254740992 + eta64"
    unfolding q_def by (rule rnd64_abs_error)
  have nFb: "0 \<le> nF" "nF \<le> 5 * F"
    unfolding nF_def using rnb Fb by (simp_all add: mult_right_mono)
  have keb: "0 \<le> ke" "ke \<le> 5 * e"
    unfolding ke_def using rnb e0 by (simp_all add: mult_right_mono)
  have "\<bar>((\<lambda>a. rnd64 (a - FIXED_TIME_STEP64)) ^^ k) A - (A - real k * FIXED_TIME_STEP64)\<bar>
           \<le> real k * (2 * A / 9007199254740992 + 1 / 9007199254740992 + eta64)"
    using A k5 by (rule funpow_sub_error)
  then have it: "\<bar>after - (A - nF)\<bar> \<le> ke"
    by (simp add: after_def stepLoop64_funpow k_def [symmetric] nF_def ke_def rn_def F_def e_def)
  define c1 where "c1 = rn - 5 / 9007199254740992 - eta64"
  have "c1 \<le> r"
    unfolding c1_def using qe rnq rnb r0 by linarith
  then have "c1 * F \<le> r * F"
    using Fb by (intro mult_right_mono) simp_all
  moreover have "c1 * F = nF - (5 / 9007199254740992 + eta64) * F"
    by (simp add: c1_def nF_def algebra_simps)
  moreover have "(5 / 9007199254740992 + eta64) * F \<le> (5 / 9007199254740992 + eta64) * (1 / 32)"
    using Fb eta64_nonneg by (intro mult_left_mono) simp_all
  ultimately have Al: "nF - 5 / 288230376151711744 - eta64 / 32 \<le> A"
    using rF by (simp add: algebra_simps) 
  have lower: "- (1 / 2 ^ 49) \<le> after"
  proof (cases "A \<le> 1")
    case True
    have "- (1 / 562949953421312) \<le> after"
      using it keb Al True A eta64_small eta64_nonneg e_def by linarith
    then show ?thesis by simp
  next
    case False
    have "0 \<le> after"
      using it keb nFb Fb False eta64_small e_def by linarith
    then show ?thesis by simp
  qed
  have upper: "after \<le> F + 1 / 2 ^ 49" if "\<lfloor>q\<rfloor> \<le> 5"
  proof -
    have "n = \<lfloor>q\<rfloor>"
      using that by (simp add: n_def)
    then have "q < rn + 1"
      by (simp add: rn_n)
    then have r7: "r \<le> 7"
      using qe rnb r0 eta64_small by linarith
    define c2 where "c2 = rn + 1 + eta64 + 7 / 9007199254740992"
    have "r \<le> c2"
      unfolding c2_def using \<open>q < rn + 1\<close> qe r7 r0 by linarith
    then have "r * F \<le> c2 * F"
      using Fb by (intro mult_right_mono) simp_all
    moreover have "c2 * F = nF + F + (eta64 + 7 / 9007199254740992) * F"
      by (simp add: c2_def nF_def algebra_simps)
    moreover have "(eta64 + 7 / 9007199254740992) * F \<le> (eta64 + 7 / 9007199254740992) * (1 / 32)"
      using Fb eta64_nonneg by (intro mult_left_mono) simp_all
    ultimately have Au: "A \<le> nF + F + eta64 / 32 + 7 / 288230376151711744"
      using rF by (simp add: algebra_simps)
    have "r * F \<le> 7 * F"
      using r7 Fb by (intro mult_right_mono) simp_all
    then have A1: "A \<le> 1"
      using rF Fb by linarith
    have "after \<le> F + 1 / 562949953421312"
      using it keb Au A1 A eta64_small eta64_nonneg e_def by linarith
    then show ?thesis by simp
  qed
  from lower upper show ?thesis
    by (simp add: after_def n_def q_def r_def F_def MAX_SUBSTEPS_def)
qed

lemma frame64_negative:
  assumes A: "A < 0"
  shows "stepLoop64 0 (min \<lfloor>rnd64 (A / FIXED_TIME_STEP64)\<rfloor> MAX_SUBSTEPS) A = A"
proof -
  have "A / FIXED_TIME_STEP64 \<le> 0"
    using A FIXED_TIME_STEP64_bounds by (simp add: divide_nonpos_pos)
  then have "rnd64 (A / FIXED_TIME_STEP64) \<le> 0"
    by (rule rnd64_nonpos)
  then have "\<lfloor>rnd64 (A / FIXED_TIME_STEP64)\<rfloor> \<le> 0"
    by (simp add: floor_le_iff)
  then have "min \<lfloor>rnd64 (A / FIXED_TIME_STEP64)\<rfloor> MAX_SUBSTEPS \<le> 0"
    by (rule min.coboundedI1)
  then have "nat (min \<lfloor>rnd64 (A / FIXED_TIME_STEP64)\<rfloor> MAX_SUBSTEPS - 0) = 0"
    by simp
  then show ?thesis
    by (simp only: stepLoop64_funpow funpow_0)
qed

lemma accumulate64_snd:
  "snd (accumulate64 t (prev, acc0))
     = stepLoop64 0
         (min \<lfloor>rnd64 (rnd64 (acc0 + frameTime64 t prev) / FIXED_TIME_STEP64)\<rfloor> MAX_SUBSTEPS)
         (rnd64 (acc0 + frameTime64 t prev))"
  by (simp add: accumulate64_def Let_def)


lemma frameTime64_nonneg:
  assumes "prev \<le> t"
  shows "0 \<le> frameTime64 t prev"
proof -
  have "0 \<le> rnd64 (t - prev)"
    using assms by (intro rnd64_nonneg) simp
  then have "0 \<le> rnd64 (rnd64 (t - prev) / 1000)"
    by (intro rnd64_nonneg) simp
  moreover have "0 \<le> rnd64 0.1"
    by (intro rnd64_nonneg) simp
  ultimately show ?thesis
    by (simp add: frameTime64_def)
qed

lemma accumulate64_lower:
  assumes a: "- (1 / 2 ^ 49) \<le> acc0" and t: "prev \<le> t"
  shows "- (1 / 2 ^ 49) \<le> snd (accumulate64 t (prev, acc0))"
proof -
  define x where "x = acc0 + frameTime64 t prev"
  define A where "A = rnd64 x"
  have x: "- (1 / 2 ^ 49) \<le> x"
    using a frameTime64_nonneg [OF t] by (simp add: x_def)
  have s: "snd (accumulate64 t (prev, acc0))
             = stepLoop64 0 (min \<lfloor>rnd64 (A / FIXED_TIME_STEP64)\<rfloor> MAX_SUBSTEPS) A"
    by (simp add: accumulate64_snd A_def x_def)
  show ?thesis
  proof (cases "0 \<le> A")
    case True
    then show ?thesis
      using frame64_bounds [of A] by (simp add: s)
  next
    case False
    then have neg: "A < 0"
      by simp
    have "x < 0"
    proof (rule ccontr)
      assume "\<not> x < 0"
      then have "0 \<le> rnd64 x"
        by (intro rnd64_nonneg) simp
      with neg show False
        by (simp add: A_def)
    qed
    with x have "\<bar>x\<bar> \<le> 1 / 2 ^ 49"
      by simp
    then have "\<bar>A\<bar> \<le> 1 / 2 ^ 49"
      unfolding A_def by (rule rnd64_bounded)
    then have "- (1 / 2 ^ 49) \<le> A"
      by simp
    then show ?thesis
      by (simp add: s frame64_negative [OF neg])
  qed
qed

subsection \<open>The accumulator\<close>




text \<open>
  Claim C2, as the code has it. In a frame the loop applies \<^verbatim>\<open>world.step()\<close> exactly
  \<open>max 0 (min \<lfloor>acc / FIXED_TIME_STEP\<rfloor> MAX_SUBSTEPS)\<close> times to the world that
  \<^verbatim>\<open>updateMovement\<close> left, where \<open>acc\<close> is the accumulator after the frame time was
  added; each application takes \<open>FIXED_TIME_STEP\<close> off the accumulator; when the floor
  exceeds \<open>MAX_SUBSTEPS\<close> exactly \<open>MAX_SUBSTEPS\<close> steps run; and the next frame adds its
  frame time to what is left. For a non-negative \<open>acc\<close> the number of steps is the
  specification's \<open>min \<lfloor>acc / FIXED_TIME_STEP\<rfloor> MAX_SUBSTEPS\<close>.
\<close>

theorem substeps_per_frame:
  "(let acc = physicsAccumulator s + frameTimeOf t s;
        ticks = nat (max 0 (min \<lfloor>acc / FIXED_TIME_STEP\<rfloor> MAX_SUBSTEPS));
        rest = acc - real ticks * FIXED_TIME_STEP
    in world (animate eng t s) =
         (step eng ^^ ticks) (world (updateMovement eng (frameTimeOf t s) (s\<lparr>previousTime := t\<rparr>)))
       \<and> physicsAccumulator (animate eng t s) = rest
       \<and> (MAX_SUBSTEPS < \<lfloor>acc / FIXED_TIME_STEP\<rfloor> \<longrightarrow> ticks = nat MAX_SUBSTEPS)
       \<and> (0 \<le> acc \<longrightarrow> int ticks = min \<lfloor>acc / FIXED_TIME_STEP\<rfloor> MAX_SUBSTEPS)
       \<and> physicsAccumulator (animate eng t' (animate eng t s)) =
           (let acc' = rest + frameTimeOf t' (animate eng t s)
            in acc' - real (nat (max 0 (min \<lfloor>acc' / FIXED_TIME_STEP\<rfloor> MAX_SUBSTEPS)))
                      * FIXED_TIME_STEP))"
proof -
  have m: "nat (max 0 k) = nat k" for k :: int
    by simp
  have f: "0 \<le> a \<Longrightarrow> 0 \<le> min \<lfloor>a / FIXED_TIME_STEP\<rfloor> MAX_SUBSTEPS" for a
    by (simp add: FIXED_TIME_STEP_def MAX_SUBSTEPS_def)
  show ?thesis
    unfolding Let_def m
    using f [of "physicsAccumulator s + frameTimeOf t s"]
    by (simp add: animate_eq ticksOf_def)
qed

theorem substeps_per_frame_witness:
  "engineState (world (animate groundEngine 100 (initialState standing 0))) = 5
   \<and> physicsAccumulator (animate groundEngine 100 (initialState standing 0)) = 1 / 60
   \<and> physicsAccumulator (animate groundEngine 120 (animate groundEngine 100 (initialState standing 0)))
       = 1 / 300"
proof -
  have u: "engineState (world (updateMovement groundEngine dt ((initialState standing 0)\<lparr>previousTime := 100\<rparr>))) = 0" for dt
    by (simp add: updateMovement_def initialState_def)
  have p: "previousTime (animate groundEngine 100 (initialState standing 0)) = 100"
    by (simp add: animate_eq)
  show ?thesis
    using substeps_per_frame [of "initialState standing 0" 100 groundEngine 120]
    by (simp add: Let_def engineState_steps u init_fields frameTimeOf_def p
        FIXED_TIME_STEP_def MAX_SUBSTEPS_def)
qed

text \<open>
  Claim C2 as the specification states it fails when the accumulator is negative: the
  minimum is then negative (here -60) and the loop does not run at all.
\<close>

theorem substeps_per_frame_counterexample:
  "int (engineState (world (animate groundEngine 0 (initialState standing 1000))))
     \<noteq> min \<lfloor>(physicsAccumulator (initialState standing 1000)
                + frameTimeOf 0 (initialState standing 1000)) / FIXED_TIME_STEP\<rfloor> MAX_SUBSTEPS"
proof -
  have u: "engineState (world (updateMovement groundEngine dt ((initialState standing 1000)\<lparr>previousTime := 0\<rparr>))) = 0" for dt
    by (simp add: updateMovement_def initialState_def)
  show ?thesis
    by (simp add: animate_eq engineState_steps u init_fields frameTimeOf_def ticksOf_def
        FIXED_TIME_STEP_def MAX_SUBSTEPS_def)
qed

text \<open>
  Claim C10, as the code has it. The frame time is the measured elapsed time clamped from
  above at 0.1 s: it is 0.1 s when the measured time is longer, and the measured time
  itself otherwise, negative values included. A measured elapsed time below minus the
  accumulator is added as it is, no step runs, and the accumulator is left negative. With
  a time stamp that is not before the previous one, the accumulator in the doubles of the
  program does not fall below minus 2 to the power -49 when it was not below it before the
  frame; it can fall below 0, as the counterexample shows.
\<close>

theorem frame_time_clamp:
  "frameTimeOf t s \<le> 0.1
   \<and> ((t - previousTime s) / 1000 \<le> 0.1 \<longrightarrow> frameTimeOf t s = (t - previousTime s) / 1000)
   \<and> (0.1 < (t - previousTime s) / 1000 \<longrightarrow> frameTimeOf t s = 0.1)
   \<and> (0 \<le> physicsAccumulator s \<and> (t - previousTime s) / 1000 < - physicsAccumulator s \<longrightarrow>
        physicsAccumulator (animate eng t s) = physicsAccumulator s + (t - previousTime s) / 1000
        \<and> physicsAccumulator (animate eng t s) < 0)
   \<and> (- (1 / 2 ^ 49) \<le> a \<and> p \<le> u \<longrightarrow> - (1 / 2 ^ 49) \<le> snd (accumulate64 u (p, a)))"
proof -
  have 6: "- (1 / 2 ^ 49) \<le> a \<and> p \<le> u \<longrightarrow> - (1 / 2 ^ 49) \<le> snd (accumulate64 u (p, a))"
    using accumulate64_lower [of a p u] by blast
  have 1: "frameTimeOf t s \<le> 0.1"
    by (simp add: frameTimeOf_def)
  have 2: "(t - previousTime s) / 1000 \<le> 0.1 \<longrightarrow> frameTimeOf t s = (t - previousTime s) / 1000"
    by (simp add: frameTimeOf_def)
  have 3: "0.1 < (t - previousTime s) / 1000 \<longrightarrow> frameTimeOf t s = 0.1"
    by (simp add: frameTimeOf_def)
  have 5: "physicsAccumulator (animate eng t s) = physicsAccumulator s + (t - previousTime s) / 1000
           \<and> physicsAccumulator (animate eng t s) < 0"
    if acc: "0 \<le> physicsAccumulator s" and neg: "(t - previousTime s) / 1000 < - physicsAccumulator s"
  proof -
    define a where "a = physicsAccumulator s + frameTimeOf t s"
    have "(t - previousTime s) / 1000 \<le> 0.1"
      using acc neg by linarith
    with 2 have ft: "frameTimeOf t s = (t - previousTime s) / 1000"
      by blast
    have a: "a < 0"
      using neg unfolding a_def ft by linarith
    then have "\<lfloor>a * 60\<rfloor> < 0"
      by (simp add: floor_less_iff mult_less_0_iff)
    then have "ticksOf a = 0"
      by (simp add: ticksOf_def FIXED_TIME_STEP_def MAX_SUBSTEPS_def)
    then have "physicsAccumulator (animate eng t s) = a"
      by (simp add: animate_eq a_def [symmetric])
    with a show ?thesis
      by (simp add: a_def ft)
  qed
  from 1 2 3 5 6 show ?thesis by blast
qed

theorem frame_time_clamp_witness:
  "frameTimeOf 5000 (initialState standing 1000) = 0.1
   \<and> frameTimeOf 1016 (initialState standing 1000) = 2 / 125
   \<and> physicsAccumulator (animate groundEngine 0 (initialState standing 1000)) = - 1
   \<and> - (1 / 2 ^ 49) \<le> snd (accumulate64 50 (accumulate64 5 (0, 0)))"
proof -
  have d: "- (1 / 2 ^ 49) \<le> (5764607523034235 / 1152921504606846976 :: real) \<and> (5 :: real) \<le> 50"
    by simp
  have a: "0.1 < (5000 - previousTime (initialState standing 1000)) / 1000"
    by (simp add: init_fields)
  have b: "(1016 - previousTime (initialState standing 1000)) / 1000 \<le> 0.1"
    by (simp add: init_fields)
  have c: "0 \<le> physicsAccumulator (initialState standing 1000)
           \<and> (0 - previousTime (initialState standing 1000)) / 1000
               < - physicsAccumulator (initialState standing 1000)"
    by (simp add: init_fields)
  show ?thesis
    using frame_time_clamp [of 5000 "initialState standing 1000" groundEngine
        "5764607523034235 / 1152921504606846976" 5 50] a d
      frame_time_clamp [of 1016 "initialState standing 1000" groundEngine
        "5764607523034235 / 1152921504606846976" 5 50] b
      frame_time_clamp [of 0 "initialState standing 1000" groundEngine
        "5764607523034235 / 1152921504606846976" 5 50] c
    by (simp add: init_fields frame_5)
qed

text \<open>
  Claim C10 as it is stated fails in the arithmetic of the program: with the time stamps
  5 ms and 50 ms after a start at 0 both measured elapsed times are positive, the quotient
  of the second frame rounds up to 3, the loop takes off three steps, and the accumulator
  is left at minus 2 to the power -57.
\<close>

theorem nonneg_times_negative_accumulator_counterexample:
  "0 \<le> frameTime64 5 0 \<and> 0 \<le> frameTime64 50 5
   \<and> snd (accumulate64 50 (accumulate64 5 (0, 0))) < 0"
  by (simp add: frame_5 frame_50) (simp add: frameTime64_def acc_r2 acc_r3 acc_r4 acc_r7 acc_r8)

subsection \<open>The ground probe and the jump\<close>

text \<open>
  Claim C4. The probe answers true exactly when the player body exists, the ray cast
  from its centre straight down with maximal distance half-height + radius + 0.6 returns a
  hit, the distance of the hit is at most half-height + radius + 0.12, the vertical
  component of the normal of the hit is above 0.3, and the vertical velocity of the body is
  at most 0.6. The condition on the normal is on the normal that the hit carries (claim C9
  is about a hit that carries none). When the ray cast returns no hit the answer is false.
\<close>

theorem isPlayerGrounded_iff:
  "(isPlayerGrounded eng s \<longleftrightarrow>
      (\<exists>b h. playerBody (world s) = Some b
         \<and> castRayAndGetNormal eng (world s)
              \<lparr>origin = translation b, dir = Vector3 0 (-1) 0\<rparr>
              (PLAYER_HALF_HEIGHT + PLAYER_RADIUS + 0.6) True = Some h
         \<and> toi h \<le> PLAYER_HALF_HEIGHT + PLAYER_RADIUS + 0.12
         \<and> (\<forall>n. normal h = Some n \<longrightarrow> yc n > 0.3)
         \<and> yc (linvel b) \<le> 0.6))
   \<and> ((\<forall>b. playerBody (world s) = Some b \<longrightarrow>
          castRayAndGetNormal eng (world s)
              \<lparr>origin = translation b, dir = Vector3 0 (-1) 0\<rparr>
              (PLAYER_HALF_HEIGHT + PLAYER_RADIUS + 0.6) True = None)
        \<longrightarrow> \<not> isPlayerGrounded eng s)"
  by (auto simp: isPlayerGrounded_def Let_def split: option.splits)

theorem isPlayerGrounded_iff_witness:
  "isPlayerGrounded groundEngine (initialState standing 0)
   \<and> \<not> isPlayerGrounded groundEngine (initialState (Vector3 0 1.2 0) 0)"
  using isPlayerGrounded_iff [of groundEngine "initialState standing 0"]
    isPlayerGrounded_iff [of groundEngine "initialState (Vector3 0 1.2 0) 0"]
  by (simp add: groundEngine_def initialState_def standing_def
      PLAYER_HALF_HEIGHT_def PLAYER_RADIUS_def GLOBAL_SCALE_def)

text \<open>
  Claim C9. For a hit that carries no normal the probe takes 1.0 for the vertical
  component of the normal: its answer depends on the distance and on the vertical velocity
  only, and is the answer for the same hit with any normal whose vertical component is 1.0.
  The witness is a body that such a hit makes grounded.
\<close>

theorem grounded_without_normal:
  assumes "playerBody (world s) = Some b"
    and "castRayAndGetNormal eng (world s) \<lparr>origin = translation b, dir = Vector3 0 (-1) 0\<rparr>
           (PLAYER_HALF_HEIGHT + PLAYER_RADIUS + 0.6) True = Some h"
    and "normal h = None"
  shows "(isPlayerGrounded eng s \<longleftrightarrow>
            toi h \<le> PLAYER_HALF_HEIGHT + PLAYER_RADIUS + 0.12 \<and> yc (linvel b) \<le> 0.6)
         \<and> isPlayerGrounded eng s =
             isPlayerGrounded
               (eng\<lparr>castRayAndGetNormal :=
                  (\<lambda>w r maxToi solid. Some (h\<lparr>normal := Some (Vector3 nx 1.0 nz)\<rparr>))\<rparr>) s"
  using assms by (simp add: isPlayerGrounded_def Let_def)

theorem grounded_without_normal_witness:
  "isPlayerGrounded
     (groundEngine\<lparr>castRayAndGetNormal := (\<lambda>w r maxToi solid. Some \<lparr>toi = 0.42, normal = None\<rparr>)\<rparr>)
     (initialState standing 0)"
proof -
  have a: "playerBody (world (initialState standing 0)) =
             Some \<lparr>translation = standing, linvel = Vector3 0 0 0\<rparr>"
    by (simp add: initialState_def)
  show ?thesis
    using grounded_without_normal [OF a,
        of "groundEngine\<lparr>castRayAndGetNormal := (\<lambda>w r maxToi solid. Some \<lparr>toi = 0.42, normal = None\<rparr>)\<rparr>"
           "\<lparr>toi = 0.42, normal = None\<rparr>" 0 0]
    by (simp add: PLAYER_HALF_HEIGHT_def PLAYER_RADIUS_def GLOBAL_SCALE_def)
qed

text \<open>
  Claim C5. A press of Space when the probe answers false leaves the physics world, and
  so the velocity of the body, as it was. When the probe answers true the new velocity has
  the vertical component \<open>PLAYER_JUMP_SPEED\<close> and the horizontal components of the old one;
  the translation of the body is unchanged.
\<close>

theorem jump_on_Space:
  "(\<not> isPlayerGrounded eng s \<longrightarrow> world (keydown eng ''Space'' s) = world s)
   \<and> (isPlayerGrounded eng s \<longrightarrow>
        (\<exists>b. playerBody (world s) = Some b
           \<and> playerBody (world (keydown eng ''Space'' s)) =
               Some (b\<lparr>linvel := Vector3 (xc (linvel b)) PLAYER_JUMP_SPEED (zc (linvel b))\<rparr>)))"
proof (cases "playerBody (world s)")
  case None
  then show ?thesis by (simp add: keydown_Space isPlayerGrounded_def)
next
  case (Some b)
  then show ?thesis by (simp add: keydown_Space Let_def)
qed

theorem jump_on_Space_witness:
  "playerBody (world (keydown groundEngine ''Space'' (initialState standing 0))) =
     Some \<lparr>translation = standing, linvel = Vector3 0 PLAYER_JUMP_SPEED 0\<rparr>
   \<and> world (keydown groundEngine ''Space'' (initialState (Vector3 0 1.2 0) 0)) =
       world (initialState (Vector3 0 1.2 0) 0)"
proof -
  have g: "isPlayerGrounded groundEngine (initialState standing 0)"
    by (simp add: isPlayerGrounded_def groundEngine_def initialState_def standing_def Let_def
        PLAYER_HALF_HEIGHT_def PLAYER_RADIUS_def GLOBAL_SCALE_def)
  have n: "\<not> isPlayerGrounded groundEngine (initialState (Vector3 0 1.2 0) 0)"
    by (simp add: isPlayerGrounded_def groundEngine_def initialState_def Let_def
        PLAYER_HALF_HEIGHT_def PLAYER_RADIUS_def GLOBAL_SCALE_def)
  have b: "playerBody (world (initialState standing 0)) =
             Some \<lparr>translation = standing, linvel = Vector3 0 0 0\<rparr>"
    by (simp add: initialState_def)
  show ?thesis
    using jump_on_Space [of groundEngine "initialState standing 0"] g b
      jump_on_Space [of groundEngine "initialState (Vector3 0 1.2 0) 0"] n
    by simp
qed

subsection \<open>The camera\<close>

text \<open>
  Claim C6. After a frame the camera is at (x, y - (h + r) + e, z), where (x, y, z) is the
  translation of the player body after the physics steps of that frame; the orientation of
  the camera and its up vector are those from before the frame.
\<close>

theorem camera_sync:
  assumes "playerBody (world (animate eng t s)) = Some b"
  shows "position (camera (animate eng t s)) =
           Vector3 (xc (translation b))
                   (yc (translation b) - (PLAYER_HALF_HEIGHT + PLAYER_RADIUS) + PLAYER_EYE_HEIGHT)
                   (zc (translation b))
         \<and> orientation (camera (animate eng t s)) = orientation (camera s)
         \<and> up (camera (animate eng t s)) = up (camera s)"
proof -
  define s3 where "s3 = stepPhysics eng (frameTimeOf t s)
                          (updateMovement eng (frameTimeOf t s) (s\<lparr>previousTime := t\<rparr>))"
  have a: "animate eng t s = syncCamera s3"
    by (simp add: animate_def s3_def Let_def)
  have b: "playerBody (world s3) = Some b"
    using assms by (simp add: a syncCamera_others)
  have c: "camera s3 = camera s"
    by (simp add: s3_def stepPhysics_eq updateMovement_others)
  show ?thesis
    by (simp add: a syncCamera_camera [OF b] c)
qed

theorem camera_sync_witness:
  "position (camera (animate groundEngine 16 (initialState standing 0))) = Vector3 0 (-0.2) 0
   \<and> orientation (camera (animate groundEngine 16 (initialState standing 0))) = Quaternion 0 1 0 0"
proof -
  have "playerBody (world (animate groundEngine 16 (initialState standing 0))) =
          Some \<lparr>translation = standing, linvel = Vector3 0 0 0\<rparr>"
    by (simp add: animate_def syncCamera_def stepPhysics_def updateMovement_def Let_def
        initialState_def frameTimeOf_def FIXED_TIME_STEP_def MAX_SUBSTEPS_def stepLoop.simps groundEngine_def)
  from camera_sync [OF this] show ?thesis
    by (simp add: initialState_def standing_def PLAYER_HALF_HEIGHT_def PLAYER_RADIUS_def
        PLAYER_EYE_HEIGHT_def GLOBAL_SCALE_def)
qed

subsection \<open>The wall slide\<close>

lemma slide_no_gain:
  fixes a c p q :: real
  assumes unit: "a * a + c * c = 1"
  shows "(p - a * (p * a + q * c)) * (p - a * (p * a + q * c))
           + (q - c * (p * a + q * c)) * (q - c * (p * a + q * c))
         \<le> p * p + q * q"
proof -
  define k where "k = p * a + q * c"
  have "(p - a * k) * (p - a * k) + (q - c * k) * (q - c * k)
          = p * p + q * q - 2 * k * (p * a + q * c) + k * k * (a * a + c * c)"
    by (simp add: algebra_simps)
  also have "\<dots> = p * p + q * q - k * k"
    by (simp add: unit k_def algebra_simps)
  also have "\<dots> \<le> p * p + q * q"
    by simp
  finally show ?thesis
    by (simp add: k_def)
qed

lemma normalize_horizontal:
  assumes "0 < lengthSq (Vector3 nx 0 nz)"
  shows "yc (normalize_v (Vector3 nx 0 nz)) = 0"
    and "xc (normalize_v (Vector3 nx 0 nz)) * xc (normalize_v (Vector3 nx 0 nz))
         + zc (normalize_v (Vector3 nx 0 nz)) * zc (normalize_v (Vector3 nx 0 nz)) = 1"
proof -
  define L where "L = length_v (Vector3 nx 0 nz)"
  have sq: "L * L = nx * nx + nz * nz"
    using assms by (simp add: L_def length_v_def lengthSq_def)
  have pos: "L \<noteq> 0"
    using assms sq by (auto simp: lengthSq_def)
  have n: "normalize_v (Vector3 nx 0 nz) = Vector3 (nx * (1 / L)) 0 (nz * (1 / L))"
    using pos by (simp add: normalize_v_def divideScalar_def multiplyScalar_def L_def)
  show "yc (normalize_v (Vector3 nx 0 nz)) = 0"
    by (simp add: n)
  have "nx * (1 / L) * (nx * (1 / L)) + nz * (1 / L) * (nz * (1 / L))
          = (nx * nx + nz * nz) / (L * L)"
    by (simp add: add_divide_distrib)
  also have "\<dots> = 1"
    using pos by (simp add: sq [symmetric])
  finally show "xc (normalize_v (Vector3 nx 0 nz)) * xc (normalize_v (Vector3 nx 0 nz))
         + zc (normalize_v (Vector3 nx 0 nz)) * zc (normalize_v (Vector3 nx 0 nz)) = 1"
    by (simp add: n)
qed

lemma slide_horizontal:
  assumes "0 < lengthSq (Vector3 nx 0 nz)"
  defines "n' \<equiv> normalize_v (Vector3 nx 0 nz)"
  shows "length_v (Vector3 (xc (addScaledVector v n' (- dot v n'))) 0
                           (zc (addScaledVector v n' (- dot v n'))))
           \<le> length_v (Vector3 (xc v) 0 (zc v))"
    and "yc (addScaledVector v n' (- dot v n')) = yc v"
proof -
  have y: "yc n' = 0" and u: "xc n' * xc n' + zc n' * zc n' = 1"
    using normalize_horizontal [OF assms(1)] by (simp_all add: n'_def)
  have d: "dot v n' = xc v * xc n' + zc v * zc n'"
    by (simp add: dot_def y)
  show "yc (addScaledVector v n' (- dot v n')) = yc v"
    by (simp add: addScaledVector_def y)
  have "lengthSq (Vector3 (xc (addScaledVector v n' (- dot v n'))) 0
                           (zc (addScaledVector v n' (- dot v n'))))
        \<le> lengthSq (Vector3 (xc v) 0 (zc v))"
    using slide_no_gain [OF u, of "xc v" "zc v"]
    by (simp add: lengthSq_def addScaledVector_def d algebra_simps)
  then show "length_v (Vector3 (xc (addScaledVector v n' (- dot v n'))) 0
                           (zc (addScaledVector v n' (- dot v n'))))
           \<le> length_v (Vector3 (xc v) 0 (zc v))"
    unfolding length_v_def by (rule real_sqrt_le_mono)
qed

lemma adjust_induct:
  assumes "P v"
    and "\<And>nx nz. 0.0001 < lengthSq (Vector3 nx 0 nz) \<Longrightarrow>
           P (addScaledVector v (normalize_v (Vector3 nx 0 nz))
                (- dot v (normalize_v (Vector3 nx 0 nz))))"
  shows "P (adjustVelocityForWalls eng w b v)"
  using assms
  by (simp add: adjustVelocityForWalls_def Let_def split: option.splits)

lemma wall_slide_example:
  "adjustVelocityForWalls wallEngine (world (initialState standing 0))
     \<lparr>translation = standing, linvel = Vector3 0 0 0\<rparr> (Vector3 3 4 1) = Vector3 0 4 1"
  by (simp add: adjustVelocityForWalls_def wallEngine_def Let_def lengthSq_def length_v_def
      normalize_v_def divideScalar_def multiplyScalar_def dot_def addScaledVector_def)

text \<open>
  In exact arithmetic the slide never lengthens the horizontal part of the velocity, and the
  vertical component passes through. The arithmetic of the program is not exact.
\<close>

lemma wall_slide_exact:
  "length_v (Vector3 (xc (adjustVelocityForWalls eng w b v)) 0
                     (zc (adjustVelocityForWalls eng w b v)))
     \<le> length_v (Vector3 (xc v) 0 (zc v))
   \<and> yc (adjustVelocityForWalls eng w b v) = yc v"
proof (rule adjust_induct)
  show "length_v (Vector3 (xc v) 0 (zc v)) \<le> length_v (Vector3 (xc v) 0 (zc v)) \<and> yc v = yc v"
    by simp
next
  fix nx nz :: real
  assume "0.0001 < lengthSq (Vector3 nx 0 nz)"
  then have "0 < lengthSq (Vector3 nx 0 nz)"
    by (rule less_trans [rotated]) simp
  from slide_horizontal [OF this, of v]
  show "length_v (Vector3 (xc (addScaledVector v (normalize_v (Vector3 nx 0 nz))
                                (- dot v (normalize_v (Vector3 nx 0 nz))))) 0
                          (zc (addScaledVector v (normalize_v (Vector3 nx 0 nz))
                                (- dot v (normalize_v (Vector3 nx 0 nz))))))
          \<le> length_v (Vector3 (xc v) 0 (zc v))
        \<and> yc (addScaledVector v (normalize_v (Vector3 nx 0 nz))
                (- dot v (normalize_v (Vector3 nx 0 nz)))) = yc v"
    by simp
qed















subsection \<open>The debug toggle\<close>

lemma updateMovement_scene:
  "scene (updateMovement eng dt s) = scene s"
  "splatMesh (updateMovement eng dt s) = splatMesh s"
  "environment (updateMovement eng dt s) = environment s"
  "splatsLoaded (updateMovement eng dt s) = splatsLoaded s"
  by (simp_all add: updateMovement_def Let_def split: option.splits)

lemma stepPhysics_scene:
  "scene (stepPhysics eng ft s) = scene s"
  "splatMesh (stepPhysics eng ft s) = splatMesh s"
  "environment (stepPhysics eng ft s) = environment s"
  "splatsLoaded (stepPhysics eng ft s) = splatsLoaded s"
  by (simp_all add: stepPhysics_def Let_def split: prod.splits)

lemma syncCamera_scene:
  "scene (syncCamera s) = scene s"
  "splatMesh (syncCamera s) = splatMesh s"
  "environment (syncCamera s) = environment s"
  "splatsLoaded (syncCamera s) = splatsLoaded s"
  by (simp_all add: syncCamera_def Let_def split: option.splits)

lemma animate_scene:
  "scene (animate eng t s) = scene s"
  "splatMesh (animate eng t s) = splatMesh s"
  "environment (animate eng t s) = environment s"
  "splatsLoaded (animate eng t s) = splatsLoaded s"
  by (simp_all add: animate_def Let_def syncCamera_scene stepPhysics_scene updateMovement_scene)

lemma sceneInv_cong:
  assumes "scene s' = scene s" "splatMesh s' = splatMesh s" "environment s' = environment s"
    "splatsLoaded s' = splatsLoaded s"
  shows "sceneInv s' = sceneInv s"
  by (simp add: sceneInv_def loadedInv_def loadingInv_def displayedSplats_def
      displayedWireframe_def attached_def assms cong: option.case_cong)

lemma keydown_scene:
  fixes s :: "'w state" and code :: string
  defines "s1 \<equiv> s\<lparr>keyState := (keyState s)(code \<mapsto> True), debugMode := \<not> debugMode s\<rparr>"
  defines "s2 \<equiv> if code = ''KeyM'' then toggleDebugMode s1 else s"
  shows "scene (keydown eng code s) = scene s2"
    and "splatMesh (keydown eng code s) = splatMesh s2"
    and "environment (keydown eng code s) = environment s2"
    and "splatsLoaded (keydown eng code s) = splatsLoaded s2"
  by (simp_all add: keydown_def Let_def s1_def s2_def split: option.splits)

lemma toggle_loading:
  "\<not> splatsLoaded s \<Longrightarrow> toggleDebugMode s = s"
  by (simp add: toggleDebugMode_def)

lemma in_remove1: "a \<noteq> b \<Longrightarrow> a \<in> set (remove1 b xs) \<longleftrightarrow> a \<in> set xs"
  by simp

lemma toggle_loaded:
  assumes "splatsLoaded s" "loadedInv s"
  shows "loadedInv (toggleDebugMode s) \<and> splatsLoaded (toggleDebugMode s)"
proof (cases "splatMesh s")
  case None
  then show ?thesis using assms by (simp add: toggleDebugMode_def)
next
  case (Some m)
  show ?thesis
  proof (cases "debugMode s")
    case True
    show ?thesis
    proof (cases "environment s")
      case None
      then show ?thesis
        using assms Some True
        by (simp add: toggleDebugMode_def loadedInv_def Let_def scene_add_def scene_remove_def
            displayedSplats_def displayedWireframe_def attached_def)
    next
      case (Some e)
      then show ?thesis
        using assms \<open>splatMesh s = Some m\<close> True
        by (simp add: toggleDebugMode_def loadedInv_def Let_def scene_add_def scene_remove_def
            displayedSplats_def displayedWireframe_def attached_def)
    qed
  next
    case False
    then show ?thesis
      using assms Some
      by (auto simp: toggleDebugMode_def loadedInv_def Let_def scene_add_def scene_remove_def
          displayedSplats_def displayedWireframe_def attached_def split: option.splits)
  qed
qed


lemma onLoad_inv: "loadingInv s \<or> loadedInv s \<Longrightarrow> loadedInv (onLoad s) \<and> splatsLoaded (onLoad s)"
  by (auto simp: onLoad_def loadedInv_def loadingInv_def Let_def scene_add_def scene_remove_def
      displayedSplats_def displayedWireframe_def attached_def split: option.splits)

lemma keydown_inv: "sceneInv s \<Longrightarrow> sceneInv (keydown eng code s)"
proof -
  assume inv: "sceneInv s"
  define s1 where "s1 = s\<lparr>keyState := (keyState s)(code \<mapsto> True), debugMode := \<not> debugMode s\<rparr>"
  have "sceneInv s1 = sceneInv s"
    by (rule sceneInv_cong) (simp_all add: s1_def)
  then have s1: "sceneInv s1"
    using inv by simp
  have t: "sceneInv (toggleDebugMode s1)"
  proof (cases "splatsLoaded s1")
    case True
    then show ?thesis
      using toggle_loaded [of s1] s1(1) by (simp add: sceneInv_def)
  next
    case False
    then show ?thesis
      using s1(1) by (simp add: toggle_loading)
  qed
  have "sceneInv (keydown eng code s) = sceneInv (if code = ''KeyM'' then toggleDebugMode s1 else s)"
    unfolding s1_def by (rule sceneInv_cong) (rule keydown_scene)+
  then show ?thesis
    using t inv by simp
qed

lemma handle_inv: "sceneInv s \<Longrightarrow> sceneInv (handle eng e s)"
proof (cases e)
  case (KeyDown code)
  assume "sceneInv s"
  then show ?thesis by (simp add: KeyDown keydown_inv)
next
  case (KeyUp code)
  assume inv: "sceneInv s"
  have "sceneInv (keyup code s) = sceneInv s"
    by (rule sceneInv_cong) (simp_all add: keyup_def)
  then show ?thesis
    using inv by (simp add: KeyUp)
next
  case (Frame t)
  assume inv: "sceneInv s"
  have "sceneInv (animate eng t s) = sceneInv s"
    by (rule sceneInv_cong) (rule animate_scene)+
  then show ?thesis
    using inv by (simp add: Frame)
next
  case Loaded
  assume "sceneInv s"
  then show ?thesis
    using onLoad_inv [of s] by (simp add: Loaded sceneInv_def split: if_splits)
qed

lemma run_inv: "sceneInv s \<Longrightarrow> sceneInv (run eng es s)"
  by (induction es arbitrary: s) (simp_all add: handle_inv)

lemma handle_keeps_loaded: "splatsLoaded s \<Longrightarrow> splatsLoaded (handle eng e s)"
proof (cases e)
  case (KeyDown code)
  assume l: "splatsLoaded s"
  show ?thesis
    using l by (simp add: KeyDown keydown_scene toggleDebugMode_def Let_def split: option.splits)
next
  case (KeyUp code)
  assume "splatsLoaded s"
  then show ?thesis by (simp add: KeyUp keyup_def)
next
  case (Frame t)
  assume "splatsLoaded s"
  then show ?thesis by (simp add: Frame animate_scene)
next
  case Loaded
  then show ?thesis by (simp add: onLoad_def Let_def)
qed

lemma run_keeps_loaded: "splatsLoaded s \<Longrightarrow> splatsLoaded (run eng es s)"
  by (induction es arbitrary: s) (simp_all add: handle_keeps_loaded)

lemma run_loaded: "Loaded \<in> set es \<Longrightarrow> splatsLoaded (run eng es s)"
proof (induction es arbitrary: s)
  case Nil
  then show ?case by simp
next
  case (Cons e es)
  show ?case
  proof (cases "e = Loaded")
    case True
    then have "splatsLoaded (handle eng e s)" by (simp add: onLoad_def Let_def)
    then show ?thesis by (simp add: run_keeps_loaded)
  next
    case False
    with Cons.prems have "Loaded \<in> set es" by simp
    then show ?thesis by (simp add: Cons.IH)
  qed
qed

lemma keydown_KeyM:
  "keydown eng ''KeyM'' s =
     toggleDebugMode (s\<lparr>keyState := (keyState s)(''KeyM'' \<mapsto> True), debugMode := \<not> debugMode s\<rparr>)"
  by (simp add: keydown_def Let_def)

lemma loaded_fields:
  "scene (onLoad (initialState p t0)) = [HemiLight, DirLight, PointLight, SplatMeshObj]"
  "splatMesh (onLoad (initialState p t0)) = Some \<lparr>visible = True\<rparr>"
  "environment (onLoad (initialState p t0)) = None"
  "splatsLoaded (onLoad (initialState p t0))"
  "debugMode (onLoad (initialState p t0)) = False"
  by (simp_all add: onLoad_def initialState_def Let_def scene_add_def scene_remove_def)

lemma toggle_keeps_environment:
  "\<exists>e. environment s = Some e \<Longrightarrow> \<exists>e. environment (toggleDebugMode s) = Some e"
  by (auto simp: toggleDebugMode_def Let_def)

lemma handle_keeps_environment:
  assumes "\<exists>x. environment s = Some x"
  shows "\<exists>x. environment (handle eng e s) = Some x"
proof (cases e)
  case (KeyDown code)
  have "\<exists>x. environment (s\<lparr>keyState := (keyState s)(code \<mapsto> True),
                                debugMode := \<not> debugMode s\<rparr>) = Some x"
    using assms by simp
  from toggle_keeps_environment [OF this] assms show ?thesis
    by (cases "code = ''KeyM''") (simp_all add: KeyDown keydown_scene)
next
  case (KeyUp code)
  then show ?thesis using assms by (simp add: keyup_def)
next
  case (Frame t)
  then show ?thesis using assms by (simp add: animate_scene)
next
  case Loaded
  then show ?thesis using assms by (auto simp: onLoad_def Let_def)
qed

lemma run_keeps_environment:
  "\<exists>x. environment s = Some x \<Longrightarrow> \<exists>x. environment (run eng es s) = Some x"
proof (induction es arbitrary: s)
  case Nil
  then show ?case by simp
next
  case (Cons e es)
  from Cons.IH [OF handle_keeps_environment [OF Cons.prems]] show ?case
    by simp
qed

lemma run_append: "run eng (es @ es') s = run eng es' (run eng es s)"
  by (induction es arbitrary: s) simp_all

lemma loadedInv_wireframe:
  assumes "loadedInv s" and "environment s = Some e"
  shows "attached s EnvironmentObj" and "displayedSplats s \<Longrightarrow> \<not> visible e"
  using assms by (auto simp: loadedInv_def attached_def displayedWireframe_def)

lemma five_events:
  "scene (run groundEngine [KeyDown ''KeyM'', Loaded, KeyDown ''KeyM'', KeyDown ''KeyM'', KeyDown ''KeyM'']
      (initialState standing 0)) = [HemiLight, DirLight, PointLight, EnvironmentObj, SplatMeshObj]"
  "environment (run groundEngine [KeyDown ''KeyM'', Loaded, KeyDown ''KeyM'', KeyDown ''KeyM'', KeyDown ''KeyM'']
      (initialState standing 0)) = Some \<lparr>visible = False\<rparr>"
  "splatMesh (run groundEngine [KeyDown ''KeyM'', Loaded, KeyDown ''KeyM'', KeyDown ''KeyM'', KeyDown ''KeyM'']
      (initialState standing 0)) = Some \<lparr>visible = True\<rparr>"
  by (simp_all add: initialState_def keydown_KeyM toggleDebugMode_def onLoad_def Let_def
      scene_add_def scene_remove_def)

text \<open>
  Claim C7, as the code has it. Once the splats have loaded, after every sequence of
  events (presses of the toggle key, of any other key, key releases, frames) exactly one of
  the splat mesh and the wireframe mesh is displayed, that is, attached to the scene with
  its \<^verbatim>\<open>visible\<close> flag set. The wireframe mesh, once it exists, is attached to the
  scene and stays so after any further events; while the splats are displayed it is hidden
  by its \<^verbatim>\<open>visible\<close> flag. The run starts in a state as \<^verbatim>\<open>init\<close> builds it and
  the load may come after any events.
\<close>

theorem one_mesh_displayed:
  assumes "scene s = [HemiLight, DirLight, PointLight]"
    and "splatMesh s = Some \<lparr>visible = True\<rparr>"
    and "environment s = None"
    and "\<not> splatsLoaded s"
    and "Loaded \<in> set es"
  shows "displayedSplats (run eng es s) \<noteq> displayedWireframe (run eng es s)
         \<and> (\<forall>e. environment (run eng es s) = Some e \<longrightarrow>
               attached (run eng es s) EnvironmentObj
               \<and> (displayedSplats (run eng es s) \<longrightarrow> \<not> visible e))
         \<and> (environment (run eng es s) \<noteq> None \<longrightarrow>
               environment (run eng (es @ es') s) \<noteq> None
               \<and> attached (run eng (es @ es') s) EnvironmentObj)"
proof -
  have i: "sceneInv s"
    using assms(1-4) by (simp add: sceneInv_def loadingInv_def)
  have inv: "loadedInv (run eng xs s)" if "Loaded \<in> set xs" for xs
    using run_inv [OF i, of eng xs] run_loaded [OF that, of eng s] by (simp add: sceneInv_def)
  have 1: "loadedInv (run eng es s)"
    using assms(5) by (rule inv)
  have 2: "loadedInv (run eng (es @ es') s)"
    using assms(5) by (intro inv) simp
  have a: "displayedSplats (run eng es s) \<noteq> displayedWireframe (run eng es s)"
    using 1 by (simp add: loadedInv_def)
  have b: "attached (run eng es s) EnvironmentObj
           \<and> (displayedSplats (run eng es s) \<longrightarrow> \<not> visible e)"
    if "environment (run eng es s) = Some e" for e
    using loadedInv_wireframe [OF 1 that] by blast
  have c: "environment (run eng (es @ es') s) \<noteq> None
           \<and> attached (run eng (es @ es') s) EnvironmentObj"
    if "environment (run eng es s) \<noteq> None"
  proof -
    from that have "\<exists>x. environment (run eng es s) = Some x"
      by blast
    from run_keeps_environment [OF this, of eng es']
    obtain e where e: "environment (run eng (es @ es') s) = Some e"
      unfolding run_append by blast
    then have n: "environment (run eng (es @ es') s) \<noteq> None"
      by simp
    from loadedInv_wireframe(1) [OF 2 e] n show ?thesis
      by blast
  qed
  from a b c show ?thesis
    by blast
qed

theorem one_mesh_displayed_witness:
  "displayedSplats (run groundEngine
      [KeyDown ''KeyM'', Loaded, KeyDown ''KeyM'', KeyDown ''KeyM'', KeyDown ''KeyM'']
      (initialState standing 0))
   \<and> \<not> displayedWireframe (run groundEngine
      [KeyDown ''KeyM'', Loaded, KeyDown ''KeyM'', KeyDown ''KeyM'', KeyDown ''KeyM'']
      (initialState standing 0))
   \<and> attached (run groundEngine
      [KeyDown ''KeyM'', Loaded, KeyDown ''KeyM'', KeyDown ''KeyM'', KeyDown ''KeyM'']
      (initialState standing 0)) EnvironmentObj
   \<and> attached (run groundEngine
      ([KeyDown ''KeyM'', Loaded, KeyDown ''KeyM'', KeyDown ''KeyM'', KeyDown ''KeyM'']
         @ [KeyDown ''KeyM''])
      (initialState standing 0)) EnvironmentObj"
proof -
  let ?es = "[KeyDown ''KeyM'', Loaded, KeyDown ''KeyM'', KeyDown ''KeyM'', KeyDown ''KeyM'']"
  let ?r = "run groundEngine ?es (initialState standing 0)"
  have h: "scene (initialState standing 0) = [HemiLight, DirLight, PointLight]"
    "splatMesh (initialState standing 0) = Some \<lparr>visible = True\<rparr>"
    "environment (initialState standing 0) = None"
    "\<not> splatsLoaded (initialState standing 0)"
    "Loaded \<in> set ?es"
    by (simp_all add: initialState_def)
  note t = one_mesh_displayed [OF h, of groundEngine "[KeyDown ''KeyM'']"]
  have e: "environment ?r = Some \<lparr>visible = False\<rparr>"
    by (rule five_events)
  have s: "displayedSplats ?r"
    unfolding displayedSplats_def attached_def five_events by simp
  from t have a: "displayedSplats ?r \<noteq> displayedWireframe ?r"
    by (rule conjunct1)
  from t e have b: "attached ?r EnvironmentObj"
    by blast
  from e have "environment ?r \<noteq> None"
    by simp
  with t have c: "attached (run groundEngine (?es @ [KeyDown ''KeyM'']) (initialState standing 0))
                    EnvironmentObj"
    by blast
  from a s have d: "\<not> displayedWireframe ?r"
    by blast
  from s d b c show ?thesis
    by (intro conjI)
qed

text \<open>
  Claim C7 as the specification states it fails: the toggle back to the splats hides the
  wireframe by its flag and leaves it in the scene, so after two presses both meshes are
  among the children of the scene.
\<close>

theorem both_meshes_attached_counterexample:
  "attached (run groundEngine [Loaded, KeyDown ''KeyM'', KeyDown ''KeyM''] (initialState standing 0))
     SplatMeshObj
   \<and> attached (run groundEngine [Loaded, KeyDown ''KeyM'', KeyDown ''KeyM''] (initialState standing 0))
     EnvironmentObj"
  by (simp add: keydown_KeyM toggleDebugMode_def loaded_fields Let_def scene_add_def
      scene_remove_def attached_def)

text \<open>
  Claim C8 does not hold of the code. The handler flips \<^verbatim>\<open>debugMode\<close> before it calls
  \<^verbatim>\<open>toggleDebugMode\<close>, and only the latter tests the loaded flag: a press before the
  load leaves the flag flipped. The flip shows later: after the load one more press
  brings the wireframe up when no press came before the load, and does not when one did.
\<close>

theorem keyM_before_load_changes_state:
  "\<not> splatsLoaded (initialState standing 0)
   \<and> \<not> debugMode (initialState standing 0)
   \<and> debugMode (keydown groundEngine ''KeyM'' (initialState standing 0))
   \<and> displayedWireframe (run groundEngine [Loaded, KeyDown ''KeyM''] (initialState standing 0))
   \<and> \<not> displayedWireframe
         (run groundEngine [KeyDown ''KeyM'', Loaded, KeyDown ''KeyM''] (initialState standing 0))"
proof -
  have i: "\<not> splatsLoaded (initialState standing 0)" "\<not> debugMode (initialState standing 0)"
    by (simp_all add: initialState_def)
  have 1: "keydown groundEngine ''KeyM'' (initialState standing 0) =
             (initialState standing 0)\<lparr>keyState := [''KeyM'' \<mapsto> True], debugMode := True\<rparr>"
    by (simp add: keydown_KeyM toggleDebugMode_def initialState_def)
  have 2: "displayedWireframe (run groundEngine [Loaded, KeyDown ''KeyM''] (initialState standing 0))"
    by (simp add: keydown_KeyM toggleDebugMode_def loaded_fields Let_def scene_add_def
        scene_remove_def attached_def displayedWireframe_def)
  have 3: "\<not> displayedWireframe
         (run groundEngine [KeyDown ''KeyM'', Loaded, KeyDown ''KeyM''] (initialState standing 0))"
    by (simp add: 1 keydown_KeyM toggleDebugMode_def onLoad_def Let_def scene_add_def
        scene_remove_def attached_def displayedWireframe_def) (simp add: initialState_def)
  show ?thesis
    using i 2 3 by (simp add: 1)
qed

end
